theory Spec2Isabelle
  imports Main "HOL-Library.Sublist" "HOL-Library.Char_ord" "HOL-Library.List_Lexorder"
begin

section \<open>Strings\<close>

text \<open>
  Python strings are modelled as \<open>string\<close>, the list of the bytes of their UTF-8
  encoding. \<open>str.replace\<close> is only ever given ASCII patterns, for which working on
  the bytes and working on the code points agree; the order on \<open>string\<close>
  (lexicographic on bytes) agrees with Python's order on \<open>str\<close> (lexicographic on
  code points).
\<close>

function replace :: "string \<Rightarrow> string \<Rightarrow> string \<Rightarrow> string" where
  "replace old new [] = (if old = [] then new else [])"
| "replace old new (c # cs) =
     (if old = [] then new @ c # replace old new cs
      else if prefix old (c # cs) then new @ replace old new (drop (length old) (c # cs))
      else c # replace old new cs)"
  by pat_completeness auto
termination
  by (relation "measure (\<lambda>(old, new, s). length s)") auto

text \<open>
  The characters \<open>str.strip()\<close> removes: those for which
  \<open>str.isspace\<close> holds, each as the bytes of its UTF-8 encoding. They are
  U+0009 to U+000D, U+001C to U+0020, U+0085, U+00A0, U+1680, U+2000 to U+200A, U+2028,
  U+2029, U+202F, U+205F and U+3000. No encoding in the list is the end or the beginning of
  the encoding of another character, so removing these byte sequences from both ends of a
  string removes exactly these characters.
\<close>

definition whitespace :: "string list" where
  "whitespace =
     [[CHR 0x09], [CHR 0x0A], [CHR 0x0B], [CHR 0x0C], [CHR 0x0D],
      [CHR 0x1C], [CHR 0x1D], [CHR 0x1E], [CHR 0x1F], [CHR 0x20],
      [CHR 0xC2, CHR 0x85], [CHR 0xC2, CHR 0xA0],
      [CHR 0xE1, CHR 0x9A, CHR 0x80],
      [CHR 0xE2, CHR 0x80, CHR 0x80], [CHR 0xE2, CHR 0x80, CHR 0x81],
      [CHR 0xE2, CHR 0x80, CHR 0x82], [CHR 0xE2, CHR 0x80, CHR 0x83],
      [CHR 0xE2, CHR 0x80, CHR 0x84], [CHR 0xE2, CHR 0x80, CHR 0x85],
      [CHR 0xE2, CHR 0x80, CHR 0x86], [CHR 0xE2, CHR 0x80, CHR 0x87],
      [CHR 0xE2, CHR 0x80, CHR 0x88], [CHR 0xE2, CHR 0x80, CHR 0x89],
      [CHR 0xE2, CHR 0x80, CHR 0x8A],
      [CHR 0xE2, CHR 0x80, CHR 0xA8], [CHR 0xE2, CHR 0x80, CHR 0xA9],
      [CHR 0xE2, CHR 0x80, CHR 0xAF],
      [CHR 0xE2, CHR 0x81, CHR 0x9F],
      [CHR 0xE3, CHR 0x80, CHR 0x80]]"

text \<open>The length of the first of the given byte sequences that \<open>s\<close> starts with.\<close>

definition leading :: "string list \<Rightarrow> string \<Rightarrow> nat" where
  "leading pats s =
     (case filter (\<lambda>p. prefix p s) pats of
        [] \<Rightarrow> 0
      | p # ps \<Rightarrow> length p)"

function lstrip :: "string list \<Rightarrow> string \<Rightarrow> string" where
  "lstrip pats s = (if leading pats s = 0 then s else lstrip pats (drop (leading pats s) s))"
  by pat_completeness auto
termination
proof (relation "measure (\<lambda>(pats, s). length s)")
  show "wf (measure (\<lambda>(pats, s). length s))" by simp
next
  fix pats :: "string list" and s :: string
  assume pos: "leading pats s \<noteq> 0"
  have "leading pats s \<le> length s"
  proof (cases "filter (\<lambda>p. prefix p s) pats")
    case Nil
    then show ?thesis by (simp add: leading_def)
  next
    case (Cons p ps)
    then have "p \<in> set (filter (\<lambda>p. prefix p s) pats)" by simp
    then have "prefix p s" by simp
    then have "length p \<le> length s" by (rule prefix_length_le)
    with Cons show ?thesis by (simp add: leading_def)
  qed
  with pos show "((pats, drop (leading pats s) s), (pats, s)) \<in> measure (\<lambda>(pats, s). length s)"
    by simp
qed

declare lstrip.simps [simp del]

definition strip :: "string \<Rightarrow> string" where
  "strip s = rev (lstrip (map rev whitespace) (rev (lstrip whitespace s)))"

fun join :: "string \<Rightarrow> string list \<Rightarrow> string" where
  "join sep [] = []"
| "join sep [x] = x"
| "join sep (x # y # ys) = x @ sep @ join sep (y # ys)"

section \<open>Exceptions and how a call ends\<close>

datatype exn =
    CalledProcessError "string list" int
  | FileNotFoundError
  | PermissionError
  | IsADirectoryError
  | NotADirectoryError
  | FileExistsError
  | OSError
  | JSONDecodeError
  | UnicodeDecodeError
  | UnicodeEncodeError
  | ValueError
  | AttributeError
  | OverflowError
  | TypeError

text \<open>The subclasses of \<open>OSError\<close> (of which \<open>IOError\<close> is an alias).\<close>

fun is_OSError :: "exn \<Rightarrow> bool" where
  "is_OSError FileNotFoundError = True"
| "is_OSError PermissionError = True"
| "is_OSError IsADirectoryError = True"
| "is_OSError NotADirectoryError = True"
| "is_OSError FileExistsError = True"
| "is_OSError OSError = True"
| "is_OSError _ = False"

text \<open>
  A call either returns or leaves through \<open>sys.exit(n)\<close> or an exception that
  nobody has caught yet.
\<close>

datatype ending = SysExit int | Raised exn

text \<open>
  The exit status of the interpreter: \<open>sys.exit(n)\<close> gives \<open>n\<close>, an uncaught
  exception gives 1 (after the traceback), falling off the end of the script gives 0.
\<close>

fun exit_code :: "ending + 'a \<Rightarrow> int" where
  "exit_code (Inl (SysExit n)) = n"
| "exit_code (Inl (Raised e)) = 1"
| "exit_code (Inr v) = 0"

section \<open>Paths\<close>

text \<open>
  A \<open>pathlib\<close> path: the anchor (drive and root, empty for a relative path) and the
  components after it.
\<close>

record path =
  anchor :: string
  parts :: "string list"

definition path_str :: "string \<Rightarrow> path \<Rightarrow> string" where
  "path_str sep p =
     (if anchor p = [] \<and> parts p = [] then ''.'' else anchor p @ join sep (parts p))"

definition parent :: "path \<Rightarrow> path" where
  "parent p = (if parts p = [] then p else p\<lparr>parts := butlast (parts p)\<rparr>)"

definition relative_to :: "path \<Rightarrow> path \<Rightarrow> exn + path" where
  "relative_to p other =
     (if anchor p = anchor other \<and> prefix (parts other) (parts p)
      then Inr \<lparr>anchor = [], parts = drop (length (parts other)) (parts p)\<rparr>
      else Inl ValueError)"

text \<open>
  \<open>p / name\<close> for a \<open>name\<close> that holds no separator, which is all the scripts
  use: the literals \<open>docs\<close>, \<open>projects\<close>, \<open>output.json\<close>,
  \<open>index.json\<close>, and the output name, from which the separators have been
  replaced. \<open>pathlib\<close> drops an empty or \<open>.\<close> component.
\<close>

definition child :: "path \<Rightarrow> string \<Rightarrow> path" where
  "child p name = (if name = [] \<or> name = ''.'' then p else p\<lparr>parts := parts p @ [name]\<rparr>)"

text \<open>
  \<open>p / s\<close> for any string \<open>s\<close>, as the POSIX flavour of
  \<open>pathlib\<close> computes it: \<open>s\<close> is cut at its slashes, empty and
  \<open>.\<close> components are dropped, and an \<open>s\<close> that starts with a slash
  replaces \<open>p\<close> altogether (its root is \<open>//\<close> when it starts with
  exactly two slashes, \<open>/\<close> otherwise). \<open>main\<close> of \<open>build.py\<close>
  forms \<open>repo_root / backend\<close> from an argument of the command line. The drives of
  the Windows flavour have no counterpart here.
\<close>

fun split_at :: "char \<Rightarrow> string \<Rightarrow> string list" where
  "split_at c [] = [[]]"
| "split_at c (x # xs) =
     (if x = c then [] # split_at c xs
      else (case split_at c xs of
              [] \<Rightarrow> [[x]]
            | y # ys \<Rightarrow> (x # y) # ys))"

definition splitroot :: "string \<Rightarrow> string" where
  "splitroot s =
     (if s \<noteq> [] \<and> hd s = CHR ''/''
      then (if length (takeWhile (\<lambda>x. x = CHR ''/'') s) = 2 then ''//'' else ''/'')
      else [])"

definition joinpath :: "path \<Rightarrow> string \<Rightarrow> path" where
  "joinpath p s =
     (let comps = filter (\<lambda>c. c \<noteq> [] \<and> c \<noteq> ''.'') (split_at (CHR ''/'') s)
      in if splitroot s \<noteq> [] then \<lparr>anchor = splitroot s, parts = comps\<rparr>
         else p\<lparr>parts := parts p @ comps\<rparr>)"

section \<open>Values read from and written to JSON\<close>

text \<open>
  What \<open>json.load\<close> returns and \<open>json.dump\<close> takes. A dictionary keeps its
  insertion order, as Python's does. A float is \<open>PFloat m e\<close> for \<open>m * 2 ^ e\<close>.
\<close>

datatype pyval =
    PNone
  | PBool bool
  | PInt int
  | PFloat int int
  | PStr string
  | PList "pyval list"
  | PDict "(string \<times> pyval) list"

fun truthy :: "pyval \<Rightarrow> bool" where
  "truthy PNone = False"
| "truthy (PBool b) = b"
| "truthy (PInt i) = (i \<noteq> 0)"
| "truthy (PFloat m e) = (m \<noteq> 0)"
| "truthy (PStr s) = (s \<noteq> [])"
| "truthy (PList xs) = (xs \<noteq> [])"
| "truthy (PDict kvs) = (kvs \<noteq> [])"

definition dict_get :: "(string \<times> pyval) list \<Rightarrow> string \<Rightarrow> pyval \<Rightarrow> pyval" where
  "dict_get d k dflt = (case map_of d k of Some v \<Rightarrow> v | None \<Rightarrow> dflt)"

section \<open>Dates and times\<close>

text \<open>
  A \<open>datetime\<close> object: its calendar fields and, for an aware one, the offset of its
  zone from UTC in microseconds (\<open>timezone.utc\<close> is offset 0). The calendar
  arithmetic follows the standard library's \<open>_ymd2ord\<close> and \<open>_ord2ymd\<close>.
\<close>

record datetime =
  year :: int
  month :: int
  day :: int
  hour :: int
  minute :: int
  second :: int
  microsecond :: int
  tzinfo :: "int option"

definition MAXORDINAL :: int where
  "MAXORDINAL = 3652059"

definition DAYS_IN_MONTH :: "int list" where
  "DAYS_IN_MONTH = [-1, 31, 28, 31, 30, 31, 30, 31, 31, 30, 31, 30, 31]"

definition DAYS_BEFORE_MONTH :: "int list" where
  "DAYS_BEFORE_MONTH = [-1, 0, 31, 59, 90, 120, 151, 181, 212, 243, 273, 304, 334]"

definition is_leap :: "int \<Rightarrow> bool" where
  "is_leap y = (y mod 4 = 0 \<and> (y mod 100 \<noteq> 0 \<or> y mod 400 = 0))"

definition days_before_year :: "int \<Rightarrow> int" where
  "days_before_year yr = (let y = yr - 1 in y * 365 + y div 4 - y div 100 + y div 400)"

definition days_before_month :: "int \<Rightarrow> int \<Rightarrow> int" where
  "days_before_month y m = DAYS_BEFORE_MONTH ! nat m + (if m > 2 \<and> is_leap y then 1 else 0)"

definition ymd2ord :: "int \<Rightarrow> int \<Rightarrow> int \<Rightarrow> int" where
  "ymd2ord y m d = days_before_year y + days_before_month y m + d"

definition ord2ymd :: "int \<Rightarrow> int \<times> int \<times> int" where
  "ord2ymd n0 =
     (let n = n0 - 1;
          n400 = n div 146097; n = n mod 146097;
          y = n400 * 400 + 1;
          n100 = n div 36524; n = n mod 36524;
          n4 = n div 1461; n = n mod 1461;
          n1 = n div 365; n = n mod 365;
          y = y + n100 * 100 + n4 * 4 + n1
      in if n1 = 4 \<or> n100 = 4 then (y - 1, 12, 31)
         else
           let leapyear = (n1 = 3 \<and> (n4 \<noteq> 24 \<or> n100 = 3));
               m = (n + 50) div 32;
               preceding = DAYS_BEFORE_MONTH ! nat m + (if m > 2 \<and> leapyear then 1 else 0)
           in if preceding > n
              then let m' = m - 1;
                       preceding' = preceding
                         - (DAYS_IN_MONTH ! nat m' + (if m' = 2 \<and> leapyear then 1 else 0))
                   in (y, m', n - preceding' + 1)
              else (y, m, n - preceding + 1))"

text \<open>
  The days of a month (\<open>_days_in_month\<close>) and the fields that the constructor of
  \<open>datetime\<close> accepts (\<open>_check_date_fields\<close>, \<open>_check_time_fields\<close>):
  the readings that are dates and times of the calendar.
\<close>

definition days_in_month :: "int \<Rightarrow> int \<Rightarrow> int" where
  "days_in_month y m = (if m = 2 \<and> is_leap y then 29 else DAYS_IN_MONTH ! nat m)"

definition valid_datetime :: "datetime \<Rightarrow> bool" where
  "valid_datetime dt \<longleftrightarrow>
     1 \<le> year dt \<and> year dt \<le> 9999
     \<and> 1 \<le> month dt \<and> month dt \<le> 12
     \<and> 1 \<le> day dt \<and> day dt \<le> days_in_month (year dt) (month dt)
     \<and> 0 \<le> hour dt \<and> hour dt \<le> 23
     \<and> 0 \<le> minute dt \<and> minute dt \<le> 59
     \<and> 0 \<le> second dt \<and> second dt \<le> 59
     \<and> 0 \<le> microsecond dt \<and> microsecond dt \<le> 999999"

text \<open>The count of microseconds from the start of ordinal day 0 to the civil reading.\<close>

definition to_micro :: "datetime \<Rightarrow> int" where
  "to_micro dt =
     (((ymd2ord (year dt) (month dt) (day dt) * 24 + hour dt) * 60 + minute dt) * 60
        + second dt) * 1000000 + microsecond dt"

text \<open>
  \<open>dt + delta\<close> for a \<open>timedelta\<close> of \<open>delta\<close> microseconds: the zone is
  kept, and a result outside the years 1 to 9999 raises \<open>OverflowError\<close>.
\<close>

definition add_delta :: "datetime \<Rightarrow> int \<Rightarrow> exn + datetime" where
  "add_delta dt delta =
     (let t = to_micro dt + delta;
          days = t div 86400000000;
          r = t mod 86400000000;
          secs = r div 1000000;
          (y, m, d) = ord2ymd days
      in if 0 < days \<and> days \<le> MAXORDINAL
         then Inr \<lparr>year = y, month = m, day = d,
                   hour = secs div 3600, minute = secs mod 3600 div 60, second = secs mod 60,
                   microsecond = r mod 1000000, tzinfo = tzinfo dt\<rparr>
         else Inl OverflowError)"

text \<open>
  \<open>dt.astimezone(timezone.utc)\<close> for an aware \<open>dt\<close> with offset \<open>off\<close>:
  \<open>(dt - off).replace(tzinfo=utc)\<close>, then \<open>utc.fromutc\<close>, which adds the zero
  offset.
\<close>

definition astimezone_utc :: "datetime \<Rightarrow> int \<Rightarrow> exn + datetime" where
  "astimezone_utc dt off =
     (case add_delta dt (- off) of
        Inl e \<Rightarrow> Inl e
      | Inr u \<Rightarrow> add_delta (u\<lparr>tzinfo := Some 0\<rparr>) 0)"

definition digit :: "nat \<Rightarrow> char" where
  "digit d = char_of (48 + d mod 10)"

fun zpad :: "nat \<Rightarrow> nat \<Rightarrow> string" where
  "zpad 0 n = []"
| "zpad (Suc k) n = zpad k (n div 10) @ [digit n]"

function decimal :: "nat \<Rightarrow> string" where
  "decimal n = (if n < 10 then [digit n] else decimal (n div 10) @ [digit n])"
  by pat_completeness auto
termination
  by (relation "measure (\<lambda>n. n)") auto

declare decimal.simps [simp del]

text \<open>
  \<open>dt.strftime("%Y-%m-%dT%H:%M:%SZ")\<close> as the C library of Linux formats it:
  \<open>%Y\<close> is the year in decimal with no padding (a year below 1000 has fewer than
  four digits), every other field is zero-padded to two digits.
\<close>

definition strftime_iso :: "datetime \<Rightarrow> string" where
  "strftime_iso dt =
     decimal (nat (year dt)) @ ''-'' @ zpad 2 (nat (month dt)) @ ''-'' @ zpad 2 (nat (day dt))
     @ ''T'' @ zpad 2 (nat (hour dt)) @ '':'' @ zpad 2 (nat (minute dt)) @ '':''
     @ zpad 2 (nat (second dt)) @ ''Z''"

section \<open>The host: processes, files, clock\<close>

text \<open>
  How \<open>subprocess.run\<close> is asked to treat the child's output: left on the parent's
  streams, captured and decoded with the locale's encoding (\<open>text=True\<close>), or captured
  and decoded as UTF-8 with \<open>errors="replace"\<close>.
\<close>

datatype capture = Inherit | CaptureLocale | CaptureUtf8Replace

text \<open>
  What \<open>subprocess.run(..., check=False)\<close> gives: the child's return code with the
  captured standard output and standard error, or the exception raised when the child
  could not be started or its output not decoded.
\<close>

datatype proc_outcome = Exited int string string | RunRaised exn

text \<open>
  Everything outside the scripts is a parameter: the state \<open>'w\<close> of the machine
  (files, installed tools, repository history) and the library and system calls that read or
  change it. \<open>subprocess_run\<close> takes the argument vector, the capture mode and the
  variables added to the inherited environment. \<open>json_load_file\<close> is
  \<open>open(p, "r", encoding="utf-8")\<close> followed by \<open>json.load\<close>;
  \<open>json_dump_file\<close> is \<open>open(p, "w", encoding="utf-8")\<close> followed by
  \<open>json.dump(v, f, indent=2, ensure_ascii=False)\<close>. \<open>exn_str\<close> is \<open>str(e)\<close>
  and \<open>argparse_error\<close> the text \<open>parser.error\<close> prints.
\<close>

record 'w host =
  os_sep :: string
  platform_system :: string
  script_dir :: path
  subprocess_run :: "string list \<Rightarrow> capture \<Rightarrow> (string \<times> string) list \<Rightarrow> 'w \<Rightarrow> proc_outcome \<times> 'w"
  mkdir_exist_ok :: "path \<Rightarrow> 'w \<Rightarrow> exn option \<times> 'w"
  rglob :: "path \<Rightarrow> string \<Rightarrow> 'w \<Rightarrow> path list"
  path_exists :: "path \<Rightarrow> 'w \<Rightarrow> bool"
  json_load_file :: "path \<Rightarrow> 'w \<Rightarrow> exn + pyval"
  json_dump_file :: "path \<Rightarrow> pyval \<Rightarrow> 'w \<Rightarrow> exn option \<times> 'w"
  fromisoformat :: "string \<Rightarrow> datetime option"
  now_utc :: "'w \<Rightarrow> datetime"
  exn_str :: "exn \<Rightarrow> string"
  argparse_error :: "string \<Rightarrow> string"

text \<open>
  What a run does that can be seen from outside, in order: the processes it starts, the
  directories it makes, the files it opens for writing with the value it dumps, and the
  text it writes to standard output and standard error.
\<close>

datatype event =
    Spawn "string list" "(string \<times> string) list"
  | MkDir path
  | WriteJson path pyval
  | Out string
  | Err string

type_synonym 'w st = "'w \<times> event list"

definition emit :: "event list \<Rightarrow> 'w st \<Rightarrow> 'w st" where
  "emit es st = (fst st, snd st @ es)"

definition newline :: string where
  "newline = [CHR 0x0A]"

text \<open>\<open>print(s)\<close> and \<open>print(s, file=sys.stderr)\<close>.\<close>

definition print_out :: "string \<Rightarrow> event" where
  "print_out s = Out (s @ newline)"

definition print_err :: "string \<Rightarrow> event" where
  "print_err s = Err (s @ newline)"

definition run :: "'w host \<Rightarrow> string list \<Rightarrow> capture \<Rightarrow> (string \<times> string) list \<Rightarrow> 'w st
    \<Rightarrow> proc_outcome \<times> 'w st" where
  "run h cmd cap envx st =
     (case subprocess_run h cmd cap envx (fst st) of
        (r, w') \<Rightarrow> (r, (w', snd st @ [Spawn cmd envx])))"

section \<open>The functions the two scripts share word for word\<close>

definition find_pyxis_toml_files :: "'w host \<Rightarrow> path \<Rightarrow> 'w st \<Rightarrow> path list" where
  "find_pyxis_toml_files h root_dir st = rglob h root_dir ''pyxis.toml'' (fst st)"

definition get_project_name :: "'w host \<Rightarrow> path \<Rightarrow> 'w st \<Rightarrow> (ending + pyval) \<times> 'w st" where
  "get_project_name h json_file st =
     (case json_load_file h json_file (fst st) of
        Inr data \<Rightarrow>
          (case data of
             PDict d \<Rightarrow> (Inr (dict_get d ''project_name'' (PStr [])), st)
           | _ \<Rightarrow> (Inl (Raised AttributeError), st))
      | Inl e \<Rightarrow>
          if e = JSONDecodeError \<or> e = FileNotFoundError
          then (Inr (PStr []),
                emit [print_err (''Error reading '' @ path_str (os_sep h) json_file @ '': ''
                                 @ exn_str h e)] st)
          else (Inl (Raised e), st))"

definition get_git_last_modified ::
    "'w host \<Rightarrow> path \<Rightarrow> 'w st \<Rightarrow> (ending + datetime option) \<times> 'w st" where
  "get_git_last_modified h p st =
     (case run h [''git'', ''log'', ''-1'', ''--format=%cI'', ''--'', path_str (os_sep h) p]
             CaptureLocale [] st of
        (RunRaised e, st1) \<Rightarrow>
          if e = FileNotFoundError then (Inr None, st1) else (Inl (Raised e), st1)
      | (Exited rc out err, st1) \<Rightarrow>
          if rc \<noteq> 0 then (Inr None, st1)
          else
            let git_timestamp_str = strip out
            in if git_timestamp_str = [] then (Inr None, st1)
               else
                 (case fromisoformat h (replace ''Z'' ''+00:00'' git_timestamp_str) of
                    None \<Rightarrow> (Inr None, st1)
                  | Some git_dt \<Rightarrow>
                      (case tzinfo git_dt of
                         None \<Rightarrow> (Inr (Some (git_dt\<lparr>tzinfo := Some 0\<rparr>)), st1)
                       | Some off \<Rightarrow>
                           (case astimezone_utc git_dt off of
                              Inl e \<Rightarrow> (Inl (Raised e), st1)
                            | Inr d \<Rightarrow> (Inr (Some d), st1)))))"

text \<open>
  The first loop of \<open>main\<close>: the relative directory of every manifest, with the
  separators replaced, paired with the manifest. \<open>relative_to\<close> raises
  \<open>ValueError\<close> for a path that is not under \<open>project_dir\<close>.
\<close>

definition output_name :: "string \<Rightarrow> path \<Rightarrow> string" where
  "output_name sep rel_path = replace ''/'' ''_'' (replace sep ''_'' (path_str sep rel_path))"

fun collect_projects :: "string \<Rightarrow> path \<Rightarrow> path list \<Rightarrow> exn + (string \<times> path) list" where
  "collect_projects sep project_dir [] = Inr []"
| "collect_projects sep project_dir (toml_file # rest) =
     (case relative_to (parent toml_file) project_dir of
        Inl e \<Rightarrow> Inl e
      | Inr rel_path \<Rightarrow>
          (case collect_projects sep project_dir rest of
             Inl e \<Rightarrow> Inl e
           | Inr ps \<Rightarrow> Inr ((output_name sep rel_path, toml_file) # ps)))"

text \<open>The entry of one project and the index document.\<close>

definition document :: "pyval \<Rightarrow> string \<Rightarrow> datetime option \<Rightarrow> pyval" where
  "document project_name json_path last_modified_dt =
     PDict [(''name'', project_name),
            (''path'', PStr (replace [CHR 0x5C] ''/'' json_path)),
            (''last_modified_iso8601'',
               (case last_modified_dt of
                  Some dt \<Rightarrow> PStr (strftime_iso dt)
                | None \<Rightarrow> PNone))]"

definition index_data :: "datetime \<Rightarrow> pyval list \<Rightarrow> pyval" where
  "index_data now documents =
     PDict [(''generated_iso8601'', PStr (strftime_iso now)), (''docs'', PList documents)]"

definition write_index :: "'w host \<Rightarrow> path \<Rightarrow> pyval list \<Rightarrow> 'w st \<Rightarrow> (ending + unit) \<times> 'w st" where
  "write_index h base_dir documents st =
     (let generated = now_utc h (fst st);
          data = index_data generated documents;
          index_file = child base_dir ''index.json''
      in case json_dump_file h index_file data (fst st) of
           (None, w') \<Rightarrow>
             (Inr (),
              (w', snd st @ [WriteJson index_file data,
                             print_out (''Index generated at '' @ path_str (os_sep h) index_file)]))
         | (Some e, w') \<Rightarrow>
             if is_OSError e
             then (Inl (SysExit 1),
                   (w', snd st @ [WriteJson index_file data,
                                  print_err (''Error: Failed to write ''
                                     @ path_str (os_sep h) index_file @ '': '' @ exn_str h e)]))
             else (Inl (Raised e), (w', snd st @ [WriteJson index_file data])))"

section \<open>build\_json.py\<close>

definition install_cmd_json :: "string list" where
  "install_cmd_json = [''cargo'', ''install'', ''--git'', ''https://github.com/ferrobrew/pyxis.git'']"

definition install_pyxis_json :: "'w host \<Rightarrow> 'w st \<Rightarrow> (ending + unit) \<times> 'w st" where
  "install_pyxis_json h st =
     (case run h install_cmd_json Inherit [] (emit [print_out ''Installing pyxis...''] st) of
        (RunRaised e, st1) \<Rightarrow> (Inl (Raised e), st1)
      | (Exited rc out err, st1) \<Rightarrow>
          if rc = 0 then (Inr (), st1)
          else (Inl (SysExit 1),
                emit [print_err (''Error installing pyxis: ''
                                 @ exn_str h (CalledProcessError install_cmd_json rc))] st1))"

definition build_cmd :: "string \<Rightarrow> string \<Rightarrow> path \<Rightarrow> path \<Rightarrow> string list" where
  "build_cmd sep backend input_dir output_dir =
     [''pyxis'', ''build'', ''--backend'', backend,
      path_str sep input_dir, path_str sep output_dir @ ''/'']"

definition build_pyxis_project_json ::
    "'w host \<Rightarrow> path \<Rightarrow> path \<Rightarrow> 'w st \<Rightarrow> (ending + bool) \<times> 'w st" where
  "build_pyxis_project_json h input_dir output_dir st =
     (case run h (build_cmd (os_sep h) ''json'' input_dir output_dir) CaptureLocale [] st of
        (RunRaised e, st1) \<Rightarrow> (Inl (Raised e), st1)
      | (Exited rc out err, st1) \<Rightarrow>
          if rc = 0 then (Inr True, st1)
          else (Inr False,
                emit ([print_err (''Error building '' @ path_str (os_sep h) input_dir @ '':'')]
                      @ (if err \<noteq> [] then [print_err err] else [])
                      @ (if out \<noteq> [] then [print_err out] else [])) st1))"

text \<open>The body of the second loop of \<open>main\<close>, for one project.\<close>

definition process_project_json ::
    "'w host \<Rightarrow> path \<Rightarrow> path \<Rightarrow> string \<times> path \<Rightarrow> 'w st \<Rightarrow> (ending + pyval) \<times> 'w st" where
  "process_project_json h repo_root docs_dir proj st =
     (let sep = os_sep h;
          input_dir = parent (snd proj);
          output_dir = child docs_dir (fst proj);
          st0 = emit [print_out (''Building '' @ path_str sep input_dir @ '' -> ''
                                 @ path_str sep output_dir)] st
      in case build_pyxis_project_json h input_dir output_dir st0 of
           (Inl e, st1) \<Rightarrow> (Inl e, st1)
         | (Inr ok, st1) \<Rightarrow>
             if \<not> ok
             then (Inl (SysExit 1),
                   emit [print_err (''Error: Failed to build '' @ path_str sep input_dir)] st1)
             else
               let json_file = child output_dir ''output.json''
               in if \<not> path_exists h json_file (fst st1)
                  then (Inl (SysExit 1),
                        emit [print_err (''Error: '' @ path_str sep json_file
                                         @ '' not found after build'')] st1)
                  else
                    (case get_project_name h json_file st1 of
                       (Inl e, st2) \<Rightarrow> (Inl e, st2)
                     | (Inr project_name, st2) \<Rightarrow>
                         if \<not> truthy project_name
                         then (Inl (SysExit 1),
                               emit [print_err (''Error: Could not extract project_name from ''
                                                @ path_str sep json_file)] st2)
                         else
                           (case get_git_last_modified h input_dir st2 of
                              (Inl e, st3) \<Rightarrow> (Inl e, st3)
                            | (Inr last_modified_dt, st3) \<Rightarrow>
                                (case relative_to json_file repo_root of
                                   Inl e \<Rightarrow> (Inl (Raised e), st3)
                                 | Inr json_path \<Rightarrow>
                                     (Inr (document project_name (path_str sep json_path)
                                             last_modified_dt), st3)))))"

fun process_projects_json ::
    "'w host \<Rightarrow> path \<Rightarrow> path \<Rightarrow> (string \<times> path) list \<Rightarrow> 'w st
     \<Rightarrow> (ending + pyval list) \<times> 'w st" where
  "process_projects_json h repo_root docs_dir [] st = (Inr [], st)"
| "process_projects_json h repo_root docs_dir (proj # rest) st =
     (case process_project_json h repo_root docs_dir proj st of
        (Inl e, st1) \<Rightarrow> (Inl e, st1)
      | (Inr doc, st1) \<Rightarrow>
          (case process_projects_json h repo_root docs_dir rest st1 of
             (Inl e, st2) \<Rightarrow> (Inl e, st2)
           | (Inr docs, st2) \<Rightarrow> (Inr (doc # docs), st2)))"

definition main_json :: "'w host \<Rightarrow> 'w \<Rightarrow> (ending + unit) \<times> 'w st" where
  "main_json h w =
     (case install_pyxis_json h (w, []) of
        (Inl e, st1) \<Rightarrow> (Inl e, st1)
      | (Inr u, st1) \<Rightarrow>
          let repo_root = script_dir h;
              docs_dir = child repo_root ''docs''
          in (case mkdir_exist_ok h docs_dir (fst st1) of
               (Some e, w2) \<Rightarrow> (Inl (Raised e), (w2, snd st1 @ [MkDir docs_dir]))
             | (None, w2) \<Rightarrow>
                 let st2 = (w2, snd st1 @ [MkDir docs_dir]);
                     project_dir = child repo_root ''projects'';
                     toml_files = find_pyxis_toml_files h project_dir st2
                 in if toml_files = []
                    then (Inl (SysExit 1), emit [print_out ''No pyxis.toml files found.''] st2)
                    else
                      (case collect_projects (os_sep h) project_dir toml_files of
                         Inl e \<Rightarrow> (Inl (Raised e), st2)
                       | Inr projects \<Rightarrow>
                           (case process_projects_json h repo_root docs_dir
                                   (sort_key fst projects) st2 of
                              (Inl e, st3) \<Rightarrow> (Inl e, st3)
                            | (Inr documents, st3) \<Rightarrow> write_index h docs_dir documents st3))))"

section \<open>build.py\<close>

record args =
  branch :: "string option"
  tag :: "string option"
  rev :: "string option"
  path_arg :: "string option"
  no_install :: bool
  backend :: string

text \<open>What \<open>parse_args\<close> gives for an empty command line.\<close>

definition default_args :: args where
  "default_args = \<lparr>branch = None, tag = None, rev = None, path_arg = None,
                    no_install = False, backend = ''json''\<rparr>"

text \<open>The truth value of an optional string: neither \<open>None\<close> nor empty.\<close>

fun given :: "string option \<Rightarrow> bool" where
  "given None = False"
| "given (Some s) = (s \<noteq> [])"

definition install_cmd :: "string option \<Rightarrow> string option \<Rightarrow> string option \<Rightarrow> string option
    \<Rightarrow> string list" where
  "install_cmd br tg rv pth =
     [''cargo'', ''install'']
     @ (if given pth then [''--path'', the pth]
        else [''--git'', ''https://github.com/ferrobrew/pyxis.git'']
             @ (if given br then [''--branch'', the br]
                else if given tg then [''--tag'', the tg]
                else if given rv then [''--rev'', the rv]
                else []))"

definition install_note :: "string option \<Rightarrow> string option \<Rightarrow> string option \<Rightarrow> string option
    \<Rightarrow> event list" where
  "install_note br tg rv pth =
     (if given pth then [print_out (''Installing pyxis from path: '' @ the pth)]
      else if given br then [print_out (''Installing pyxis from branch: '' @ the br)]
      else if given tg then [print_out (''Installing pyxis from tag: '' @ the tg)]
      else if given rv then [print_out (''Installing pyxis from revision: '' @ the rv)]
      else [])"

definition install_pyxis :: "'w host \<Rightarrow> string option \<Rightarrow> string option \<Rightarrow> string option
    \<Rightarrow> string option \<Rightarrow> 'w st \<Rightarrow> (ending + unit) \<times> 'w st" where
  "install_pyxis h br tg rv pth st =
     (let cmd = install_cmd br tg rv pth
      in case run h cmd Inherit []
                (emit (print_out ''Installing pyxis...'' # install_note br tg rv pth) st) of
           (RunRaised e, st1) \<Rightarrow> (Inl (Raised e), st1)
         | (Exited rc out err, st1) \<Rightarrow>
             if rc = 0 then (Inr (), st1)
             else (Inl (SysExit 1),
                   emit [print_err (''Error installing pyxis: ''
                                    @ exn_str h (CalledProcessError cmd rc))] st1))"

text \<open>
  On Windows the child gets \<open>PYTHONIOENCODING=utf-8\<close>; the calls that switch the
  console and \<open>sys.stderr\<close> to UTF-8 there change how text is shown, not which text is
  written, and have no counterpart here. The captured text is echoed with \<open>end=""\<close>.
\<close>

definition build_env :: "'w host \<Rightarrow> (string \<times> string) list" where
  "build_env h = (if platform_system h = ''Windows'' then [(''PYTHONIOENCODING'', ''utf-8'')] else [])"

definition build_pyxis_project ::
    "'w host \<Rightarrow> path \<Rightarrow> path \<Rightarrow> string \<Rightarrow> 'w st \<Rightarrow> (ending + bool) \<times> 'w st" where
  "build_pyxis_project h input_dir output_dir bk st =
     (case run h (build_cmd (os_sep h) bk input_dir output_dir) CaptureUtf8Replace
             (build_env h) st of
        (RunRaised e, st1) \<Rightarrow> (Inl (Raised e), st1)
      | (Exited rc out err, st1) \<Rightarrow>
          if rc = 0 then (Inr True, st1)
          else (Inr False,
                emit ([print_err (''Error building '' @ path_str (os_sep h) input_dir @ '':'')]
                      @ (if err \<noteq> [] then [Err err] else [])
                      @ (if out \<noteq> [] then [Err out] else [])) st1))"

text \<open>
  The body of the second loop of \<open>main\<close>: the entry of the project for the
  \<open>json\<close> backend, nothing for another backend.
\<close>

definition process_project ::
    "'w host \<Rightarrow> path \<Rightarrow> path \<Rightarrow> string \<Rightarrow> string \<times> path \<Rightarrow> 'w st
     \<Rightarrow> (ending + pyval option) \<times> 'w st" where
  "process_project h repo_root output_base_dir bk proj st =
     (let sep = os_sep h;
          input_dir = parent (snd proj);
          output_dir = child output_base_dir (fst proj);
          st0 = emit [print_out (''Building '' @ path_str sep input_dir @ '' -> ''
                                 @ path_str sep output_dir)] st
      in case build_pyxis_project h input_dir output_dir bk st0 of
           (Inl e, st1) \<Rightarrow> (Inl e, st1)
         | (Inr ok, st1) \<Rightarrow>
             if \<not> ok
             then (Inl (SysExit 1),
                   emit [print_err (''Error: Failed to build '' @ path_str sep input_dir)] st1)
             else if bk \<noteq> ''json'' then (Inr None, st1)
             else
               let json_file = child output_dir ''output.json''
               in if \<not> path_exists h json_file (fst st1)
                  then (Inl (SysExit 1),
                        emit [print_err (''Error: '' @ path_str sep json_file
                                         @ '' not found after build'')] st1)
                  else
                    (case get_project_name h json_file st1 of
                       (Inl e, st2) \<Rightarrow> (Inl e, st2)
                     | (Inr project_name, st2) \<Rightarrow>
                         if \<not> truthy project_name
                         then (Inl (SysExit 1),
                               emit [print_err (''Error: Could not extract project_name from ''
                                                @ path_str sep json_file)] st2)
                         else
                           (case get_git_last_modified h input_dir st2 of
                              (Inl e, st3) \<Rightarrow> (Inl e, st3)
                            | (Inr last_modified_dt, st3) \<Rightarrow>
                                (case relative_to json_file repo_root of
                                   Inl e \<Rightarrow> (Inl (Raised e), st3)
                                 | Inr json_path \<Rightarrow>
                                     (Inr (Some (document project_name (path_str sep json_path)
                                                   last_modified_dt)), st3)))))"

fun process_projects ::
    "'w host \<Rightarrow> path \<Rightarrow> path \<Rightarrow> string \<Rightarrow> (string \<times> path) list \<Rightarrow> 'w st
     \<Rightarrow> (ending + pyval list) \<times> 'w st" where
  "process_projects h repo_root output_base_dir bk [] st = (Inr [], st)"
| "process_projects h repo_root output_base_dir bk (proj # rest) st =
     (case process_project h repo_root output_base_dir bk proj st of
        (Inl e, st1) \<Rightarrow> (Inl e, st1)
      | (Inr doc, st1) \<Rightarrow>
          (case process_projects h repo_root output_base_dir bk rest st1 of
             (Inl e, st2) \<Rightarrow> (Inl e, st2)
           | (Inr docs, st2) \<Rightarrow>
               (Inr ((case doc of Some d \<Rightarrow> [d] | None \<Rightarrow> []) @ docs), st2)))"

definition specified :: "args \<Rightarrow> nat" where
  "specified a =
     sum_list (map (\<lambda>b. if b then 1 else 0)
       [branch a \<noteq> None, tag a \<noteq> None, rev a \<noteq> None, path_arg a \<noteq> None])"

definition main :: "'w host \<Rightarrow> args \<Rightarrow> 'w \<Rightarrow> (ending + unit) \<times> 'w st" where
  "main h a w =
     (if specified a > 1
      then (Inl (SysExit 2),
            (w, [Err (argparse_error h
                   ''Only one of --branch, --tag, --rev, or --path can be specified'')]))
      else
        (case (if \<not> no_install a
               then install_pyxis h (branch a) (tag a) (rev a) (path_arg a) (w, [])
               else (Inr (), (w, []))) of
           (Inl e, st1) \<Rightarrow> (Inl e, st1)
         | (Inr u, st1) \<Rightarrow>
            let repo_root = script_dir h;
                bk = backend a;
                output_base_dir = (if bk = ''json'' then child repo_root ''docs''
                                   else joinpath repo_root bk)
            in (case mkdir_exist_ok h output_base_dir (fst st1) of
                 (Some e, w2) \<Rightarrow> (Inl (Raised e), (w2, snd st1 @ [MkDir output_base_dir]))
               | (None, w2) \<Rightarrow>
                   let st2 = (w2, snd st1 @ [MkDir output_base_dir]);
                       project_dir = child repo_root ''projects'';
                       toml_files = find_pyxis_toml_files h project_dir st2
                   in if toml_files = []
                      then (Inl (SysExit 1), emit [print_out ''No pyxis.toml files found.''] st2)
                      else
                        (case collect_projects (os_sep h) project_dir toml_files of
                           Inl e \<Rightarrow> (Inl (Raised e), st2)
                         | Inr projects \<Rightarrow>
                             (case process_projects h repo_root output_base_dir bk
                                     (sort_key fst projects) st2 of
                                (Inl e, st3) \<Rightarrow> (Inl e, st3)
                              | (Inr documents, st3) \<Rightarrow>
                                  if bk = ''json''
                                  then write_index h output_base_dir documents st3
                                  else (Inr (), st3))))))"

section \<open>Reading a run\<close>



fun is_write :: "event \<Rightarrow> bool" where
  "is_write (WriteJson p v) = True"
| "is_write e = False"

fun is_err :: "event \<Rightarrow> bool" where
  "is_err (Err s) = True"
| "is_err e = False"

section \<open>Concrete hosts\<close>

text \<open>
  A machine on which everything works: two manifests, found in an order that is not the
  sorted one, every tool exits with 0, every artifact names its project \<open>Foo\<close>, and the
  history gives \<open>2024-01-01T00:00:00+05:00\<close>. Its state counts the actions taken.
\<close>

definition demo_root :: path where
  "demo_root = \<lparr>anchor = ''/'', parts = [''repo'']\<rparr>"

definition demo_stamp :: datetime where
  "demo_stamp = \<lparr>year = 2024, month = 1, day = 1, hour = 0, minute = 0, second = 0,
                  microsecond = 0, tzinfo = Some 18000000000\<rparr>"

definition demo_manifests :: "path list" where
  "demo_manifests =
     [\<lparr>anchor = ''/'', parts = [''repo'', ''projects'', ''b'', ''pyxis.toml'']\<rparr>,
      \<lparr>anchor = ''/'', parts = [''repo'', ''projects'', ''a'', ''x'', ''pyxis.toml'']\<rparr>]"

definition demo_host :: "nat host" where
  "demo_host =
     \<lparr>os_sep = ''/'', platform_system = ''Linux'', script_dir = demo_root,
      subprocess_run = (\<lambda>cmd cap envx w.
         (if take 1 cmd = [''git'']
          then Exited 0 (''2024-01-01T00:00:00+05:00'' @ newline) []
          else Exited 0 [] [], Suc w)),
      mkdir_exist_ok = (\<lambda>p w. (None, Suc w)),
      rglob = (\<lambda>p name w. demo_manifests),
      path_exists = (\<lambda>p w. True),
      json_load_file = (\<lambda>p w. Inr (PDict [(''project_name'', PStr ''Foo'')])),
      json_dump_file = (\<lambda>p v w. (None, Suc w)),
      fromisoformat = (\<lambda>s. if s = ''2024-01-01T00:00:00+05:00'' then Some demo_stamp else None),
      now_utc = (\<lambda>w. demo_stamp\<lparr>tzinfo := Some 0\<rparr>),
      exn_str = (\<lambda>e. ''error''),
      argparse_error = (\<lambda>s. s)\<rparr>"


text \<open>The same machine with artifacts that hold the JSON document \<open>[]\<close>.\<close>

definition host_array_artifact :: "nat host" where
  "host_array_artifact = demo_host\<lparr>json_load_file := (\<lambda>p w. Inr (PList []))\<rparr>"

text \<open>The same machine with no artifact, and with artifacts that are not JSON.\<close>

definition host_no_artifact :: "nat host" where
  "host_no_artifact = demo_host\<lparr>json_load_file := (\<lambda>p w. Inl FileNotFoundError)\<rparr>"

definition host_bad_artifact :: "nat host" where
  "host_bad_artifact = demo_host\<lparr>json_load_file := (\<lambda>p w. Inl JSONDecodeError)\<rparr>"

definition host_empty_artifact :: "nat host" where
  "host_empty_artifact = demo_host\<lparr>json_load_file := (\<lambda>p w. Inr (PDict []))\<rparr>"

text \<open>A machine where the artifact is not UTF-8 text, so that reading it fails to decode.\<close>

definition host_undecodable_artifact :: "nat host" where
  "host_undecodable_artifact = demo_host\<lparr>json_load_file := (\<lambda>p w. Inl UnicodeDecodeError)\<rparr>"




definition demo_artifact :: path where
  "demo_artifact = \<lparr>anchor = ''/'', parts = [''repo'', ''docs'', ''b'', ''output.json'']\<rparr>"






definition naive_stamp :: datetime where
  "naive_stamp = \<lparr>year = 2024, month = 1, day = 1, hour = 0, minute = 0, second = 0,
                   microsecond = 0, tzinfo = None\<rparr>"

definition host_naive_stamp :: "nat host" where
  "host_naive_stamp =
     demo_host\<lparr>subprocess_run := (\<lambda>cmd cap envx w.
        (if take 1 cmd = [''git''] then Exited 0 (''2024-01-01T00:00:00'' @ newline) []
         else Exited 0 [] [], Suc w)),
       fromisoformat := (\<lambda>s. if s = ''2024-01-01T00:00:00'' then Some naive_stamp else None)\<rparr>"


text \<open>A field of an entry of the index, and the entries of an index document.\<close>

definition entry_field :: "string \<Rightarrow> pyval \<Rightarrow> pyval" where
  "entry_field k v = (case v of PDict kvs \<Rightarrow> dict_get kvs k PNone | _ \<Rightarrow> PNone)"

definition index_docs :: "pyval \<Rightarrow> pyval list" where
  "index_docs v = (case entry_field ''docs'' v of PList ds \<Rightarrow> ds | _ \<Rightarrow> [])"



section \<open>The phases of a run\<close>

text \<open>
  What \<open>main\<close> of \<open>build_json.py\<close> does before its second loop: the
  installation, the output directory, the search for manifests and the sorted list of
  projects, or the way the run ends there.
\<close>

definition discover_json :: "'w host \<Rightarrow> 'w \<Rightarrow> (ending + (string \<times> path) list) \<times> 'w st" where
  "discover_json h w =
     (case install_pyxis_json h (w, []) of
        (Inl e, st1) \<Rightarrow> (Inl e, st1)
      | (Inr u, st1) \<Rightarrow>
          let docs_dir = child (script_dir h) ''docs''
          in (case mkdir_exist_ok h docs_dir (fst st1) of
               (Some e, w2) \<Rightarrow> (Inl (Raised e), (w2, snd st1 @ [MkDir docs_dir]))
             | (None, w2) \<Rightarrow>
                 let st2 = (w2, snd st1 @ [MkDir docs_dir]);
                     project_dir = child (script_dir h) ''projects'';
                     toml_files = find_pyxis_toml_files h project_dir st2
                 in if toml_files = []
                    then (Inl (SysExit 1), emit [print_out ''No pyxis.toml files found.''] st2)
                    else
                      (case collect_projects (os_sep h) project_dir toml_files of
                         Inl e \<Rightarrow> (Inl (Raised e), st2)
                       | Inr projects \<Rightarrow> (Inr (sort_key fst projects), st2))))"

text \<open>The same for \<open>build.py\<close>, once the arguments have been accepted.\<close>

definition output_base :: "'w host \<Rightarrow> args \<Rightarrow> path" where
  "output_base h a =
     (if backend a = ''json'' then child (script_dir h) ''docs''
      else joinpath (script_dir h) (backend a))"

definition discover :: "'w host \<Rightarrow> args \<Rightarrow> 'w \<Rightarrow> (ending + (string \<times> path) list) \<times> 'w st" where
  "discover h a w =
     (case (if \<not> no_install a
            then install_pyxis h (branch a) (tag a) (rev a) (path_arg a) (w, [])
            else (Inr (), (w, []))) of
        (Inl e, st1) \<Rightarrow> (Inl e, st1)
      | (Inr u, st1) \<Rightarrow>
          (case mkdir_exist_ok h (output_base h a) (fst st1) of
             (Some e, w2) \<Rightarrow> (Inl (Raised e), (w2, snd st1 @ [MkDir (output_base h a)]))
           | (None, w2) \<Rightarrow>
               let st2 = (w2, snd st1 @ [MkDir (output_base h a)]);
                   project_dir = child (script_dir h) ''projects'';
                   toml_files = find_pyxis_toml_files h project_dir st2
               in if toml_files = []
                  then (Inl (SysExit 1), emit [print_out ''No pyxis.toml files found.''] st2)
                  else
                    (case collect_projects (os_sep h) project_dir toml_files of
                       Inl e \<Rightarrow> (Inl (Raised e), st2)
                     | Inr projects \<Rightarrow> (Inr (sort_key fst projects), st2))))"

text \<open>
  The manifests a run finds: the result of the search in the state the machine is in when
  \<open>main\<close> searches, after the installation and the output directory.
\<close>

definition manifests_json :: "'w host \<Rightarrow> 'w \<Rightarrow> path list" where
  "manifests_json h w =
     (case install_pyxis_json h (w, []) of
        (Inl e, st1) \<Rightarrow> []
      | (Inr u, st1) \<Rightarrow>
          (case mkdir_exist_ok h (child (script_dir h) ''docs'') (fst st1) of
             (Some e, w2) \<Rightarrow> []
           | (None, w2) \<Rightarrow> rglob h (child (script_dir h) ''projects'') ''pyxis.toml'' w2))"

text \<open>The output name \<open>main\<close> derives for a manifest under \<open>project_dir\<close>.\<close>

definition name_of :: "string \<Rightarrow> path \<Rightarrow> path \<Rightarrow> string" where
  "name_of sep project_dir toml_file =
     (case relative_to (parent toml_file) project_dir of
        Inr rel_path \<Rightarrow> output_name sep rel_path
      | Inl e \<Rightarrow> [])"

text \<open>
  The steps of the loop body for one project, each from the state the step before left:
  the build, the artifact, the name. \<open>project_ok_json\<close> says that the build succeeds,
  the artifact exists, the name extracted is not empty and the history lookup returns.
\<close>

definition built_json :: "'w host \<Rightarrow> path \<Rightarrow> string \<times> path \<Rightarrow> 'w st \<Rightarrow> (ending + bool) \<times> 'w st" where
  "built_json h docs_dir proj st =
     build_pyxis_project_json h (parent (snd proj)) (child docs_dir (fst proj))
       (emit [print_out (''Building '' @ path_str (os_sep h) (parent (snd proj)) @ '' -> ''
                         @ path_str (os_sep h) (child docs_dir (fst proj)))] st)"

definition built :: "'w host \<Rightarrow> path \<Rightarrow> string \<Rightarrow> string \<times> path \<Rightarrow> 'w st
    \<Rightarrow> (ending + bool) \<times> 'w st" where
  "built h base bk proj st =
     build_pyxis_project h (parent (snd proj)) (child base (fst proj)) bk
       (emit [print_out (''Building '' @ path_str (os_sep h) (parent (snd proj)) @ '' -> ''
                         @ path_str (os_sep h) (child base (fst proj)))] st)"

definition artifact :: "path \<Rightarrow> string \<times> path \<Rightarrow> path" where
  "artifact base proj = child (child base (fst proj)) ''output.json''"

definition project_ok_json :: "'w host \<Rightarrow> path \<Rightarrow> string \<times> path \<Rightarrow> 'w st \<Rightarrow> bool" where
  "project_ok_json h docs_dir proj st =
     (case built_json h docs_dir proj st of
        (Inr ok, st1) \<Rightarrow>
          ok \<and> path_exists h (artifact docs_dir proj) (fst st1)
          \<and> (case get_project_name h (artifact docs_dir proj) st1 of
                (Inr name, st2) \<Rightarrow>
                  truthy name
                  \<and> (case get_git_last_modified h (parent (snd proj)) st2 of
                        (Inr lm, st3) \<Rightarrow> True
                      | (Inl e, st3) \<Rightarrow> False)
              | (Inl e, st2) \<Rightarrow> False)
      | (Inl e, st1) \<Rightarrow> False)"

text \<open>
  The run of the loop over the projects: every project is in order when its turn comes;
  and some build fails, the projects before it having been in order.
\<close>

fun every_project_ok_json ::
    "'w host \<Rightarrow> path \<Rightarrow> path \<Rightarrow> (string \<times> path) list \<Rightarrow> 'w st \<Rightarrow> bool" where
  "every_project_ok_json h root docs_dir [] st = True"
| "every_project_ok_json h root docs_dir (proj # rest) st =
     (project_ok_json h docs_dir proj st
      \<and> every_project_ok_json h root docs_dir rest
            (snd (process_project_json h root docs_dir proj st)))"

fun some_build_fails_json ::
    "'w host \<Rightarrow> path \<Rightarrow> path \<Rightarrow> (string \<times> path) list \<Rightarrow> 'w st \<Rightarrow> bool" where
  "some_build_fails_json h root docs_dir [] st = False"
| "some_build_fails_json h root docs_dir (proj # rest) st =
     (fst (built_json h docs_dir proj st) = Inr False
      \<or> (project_ok_json h docs_dir proj st
          \<and> some_build_fails_json h root docs_dir rest
                (snd (process_project_json h root docs_dir proj st))))"

text \<open>The files a run has opened for writing.\<close>

definition writes :: "event list \<Rightarrow> event list" where
  "writes tr = filter is_write tr"

text \<open>What a run shows apart from the text on standard error.\<close>

definition quiet :: "event list \<Rightarrow> event list" where
  "quiet tr = filter (\<lambda>e. \<not> is_err e) tr"

section \<open>Output names\<close>

text \<open>
  C10. The output name does not determine the relative directory: the directories
  \<open>a/b\<close> and \<open>a_b\<close> both get the name \<open>a_b\<close>, hence the same output
  directory under any base directory and the same sort key; the first loop of \<open>main\<close>
  pairs both manifests with that one name.
\<close>

theorem output_name_not_injective:
  "output_name ''/'' \<lparr>anchor = [], parts = [''a'', ''b'']\<rparr> = ''a_b''
   \<and> output_name ''/'' \<lparr>anchor = [], parts = [''a_b'']\<rparr> = ''a_b''
   \<and> (\<exists>p q. p \<noteq> q \<and> output_name ''/'' p = output_name ''/'' q
              \<and> child d (output_name ''/'' p) = child d (output_name ''/'' q))
   \<and> collect_projects ''/'' \<lparr>anchor = ''/'', parts = [''repo'', ''projects'']\<rparr>
         [\<lparr>anchor = ''/'', parts = [''repo'', ''projects'', ''a'', ''b'', ''pyxis.toml'']\<rparr>,
          \<lparr>anchor = ''/'', parts = [''repo'', ''projects'', ''a_b'', ''pyxis.toml'']\<rparr>]
       = Inr [(''a_b'', \<lparr>anchor = ''/'', parts = [''repo'', ''projects'', ''a'', ''b'', ''pyxis.toml'']\<rparr>),
              (''a_b'', \<lparr>anchor = ''/'', parts = [''repo'', ''projects'', ''a_b'', ''pyxis.toml'']\<rparr>)]"
proof -
  have a: "output_name ''/'' \<lparr>anchor = [], parts = [''a'', ''b'']\<rparr> = ''a_b''"
    by (simp add: output_name_def path_str_def)
  have b: "output_name ''/'' \<lparr>anchor = [], parts = [''a_b'']\<rparr> = ''a_b''"
    by (simp add: output_name_def path_str_def)
  have ne: "\<lparr>anchor = [], parts = [''a'', ''b'']\<rparr> \<noteq> \<lparr>anchor = [], parts = [''a_b'']\<rparr>"
    by simp
  have c: "\<exists>p q. p \<noteq> q \<and> output_name ''/'' p = output_name ''/'' q
              \<and> child d (output_name ''/'' p) = child d (output_name ''/'' q)"
    using a b ne by metis
  have e: "collect_projects ''/'' \<lparr>anchor = ''/'', parts = [''repo'', ''projects'']\<rparr>
         [\<lparr>anchor = ''/'', parts = [''repo'', ''projects'', ''a'', ''b'', ''pyxis.toml'']\<rparr>,
          \<lparr>anchor = ''/'', parts = [''repo'', ''projects'', ''a_b'', ''pyxis.toml'']\<rparr>]
       = Inr [(''a_b'', \<lparr>anchor = ''/'', parts = [''repo'', ''projects'', ''a'', ''b'', ''pyxis.toml'']\<rparr>),
              (''a_b'', \<lparr>anchor = ''/'', parts = [''repo'', ''projects'', ''a_b'', ''pyxis.toml'']\<rparr>)]"
    by (simp add: relative_to_def parent_def output_name_def path_str_def)
  show ?thesis using a b c e by blast
qed

section \<open>The project builder\<close>










section \<open>The metadata extractor\<close>

lemma get_project_name_object:
  assumes "json_load_file h p (fst st) = Inr (PDict d)"
  shows "get_project_name h p st = (Inr (dict_get d ''project_name'' (PStr [])), st)"
  using assms by (simp add: get_project_name_def)

lemma get_project_name_caught:
  assumes "json_load_file h p (fst st) = Inl e" and "e = JSONDecodeError \<or> e = FileNotFoundError"
  shows "fst (get_project_name h p st) = Inr (PStr [])"
  using assms by (auto simp: get_project_name_def)

lemma get_project_name_escapes:
  assumes "json_load_file h p (fst st) = Inl e" and "e \<noteq> JSONDecodeError" and "e \<noteq> FileNotFoundError"
  shows "get_project_name h p st = (Inl (Raised e), st)"
  using assms by (simp add: get_project_name_def)

lemma get_project_name_no_object:
  assumes "json_load_file h p (fst st) = Inr v" and "\<And>d. v \<noteq> PDict d"
  shows "get_project_name h p st = (Inl (Raised AttributeError), st)"
  using assms by (cases v) (auto simp: get_project_name_def)

text \<open>
  C4 as stated fails: an artifact that holds a JSON document other than an object, here
  \<open>[]\<close>, makes \<open>data.get\<close> raise \<open>AttributeError\<close>, which the handler
  for \<open>JSONDecodeError\<close> and \<open>FileNotFoundError\<close> lets through.
\<close>

theorem get_project_name_raises:
  "fst (get_project_name host_array_artifact demo_artifact (0, [])) = Inl (Raised AttributeError)"
  by (simp add: get_project_name_def host_array_artifact_def demo_host_def)

text \<open>
  C4, amended. Write \<open>load\<close> for what opening the artifact and \<open>json.load\<close> do.
  When \<open>load\<close> returns an object, the extractor returns the value of its
  \<open>project_name\<close> field (\<open>Foo\<close> for \<open>{"project_name": "Foo"}\<close>) and the
  empty string when the object has no such field. When \<open>load\<close> raises
  \<open>FileNotFoundError\<close> or \<open>JSONDecodeError\<close> the extractor returns the empty
  string. These are the only cases in which it returns: any other exception of \<open>load\<close>
  (\<open>UnicodeDecodeError\<close> for a file that is not UTF-8, \<open>ValueError\<close> for an
  integer with too many digits, \<open>PermissionError\<close>) leaves the extractor as it is, and a
  document that is not an object makes it raise \<open>AttributeError\<close>.
\<close>

theorem get_project_name_contract:
  "(json_load_file h p w = Inr (PDict [(''project_name'', PStr ''Foo'')]) \<longrightarrow>
      fst (get_project_name h p (w, tr)) = Inr (PStr ''Foo''))
   \<and> (\<forall>d v. json_load_file h p w = Inr (PDict d) \<and> map_of d ''project_name'' = Some v \<longrightarrow>
        fst (get_project_name h p (w, tr)) = Inr v)
   \<and> (\<forall>d. json_load_file h p w = Inr (PDict d) \<and> map_of d ''project_name'' = None \<longrightarrow>
        fst (get_project_name h p (w, tr)) = Inr (PStr []))
   \<and> (json_load_file h p w = Inl FileNotFoundError \<or> json_load_file h p w = Inl JSONDecodeError \<longrightarrow>
        fst (get_project_name h p (w, tr)) = Inr (PStr []))
   \<and> ((\<exists>v. fst (get_project_name h p (w, tr)) = Inr v) \<longleftrightarrow>
        json_load_file h p w = Inl FileNotFoundError \<or> json_load_file h p w = Inl JSONDecodeError
        \<or> (\<exists>d. json_load_file h p w = Inr (PDict d)))
   \<and> (\<forall>e. json_load_file h p w = Inl e \<and> e \<noteq> FileNotFoundError \<and> e \<noteq> JSONDecodeError \<longrightarrow>
        fst (get_project_name h p (w, tr)) = Inl (Raised e))
   \<and> (\<forall>v. json_load_file h p w = Inr v \<and> (\<forall>d. v \<noteq> PDict d) \<longrightarrow>
        fst (get_project_name h p (w, tr)) = Inl (Raised AttributeError))"
proof -
  let ?r = "fst (get_project_name h p (w, tr))"
  have a: "json_load_file h p w = Inr (PDict [(''project_name'', PStr ''Foo'')]) \<longrightarrow>
      ?r = Inr (PStr ''Foo'')"
    by (simp add: get_project_name_object dict_get_def)
  have b: "\<forall>d v. json_load_file h p w = Inr (PDict d) \<and> map_of d ''project_name'' = Some v \<longrightarrow>
        ?r = Inr v"
    by (simp add: get_project_name_object dict_get_def)
  have c: "\<forall>d. json_load_file h p w = Inr (PDict d) \<and> map_of d ''project_name'' = None \<longrightarrow>
        ?r = Inr (PStr [])"
    by (simp add: get_project_name_object dict_get_def)
  have d: "json_load_file h p w = Inl FileNotFoundError \<or> json_load_file h p w = Inl JSONDecodeError \<longrightarrow>
        ?r = Inr (PStr [])"
    using get_project_name_caught [of h p "(w, tr)"] by auto
  have f: "\<forall>e. json_load_file h p w = Inl e \<and> e \<noteq> FileNotFoundError \<and> e \<noteq> JSONDecodeError \<longrightarrow>
        ?r = Inl (Raised e)"
    using get_project_name_escapes [of h p "(w, tr)"] by simp
  have g: "\<forall>v. json_load_file h p w = Inr v \<and> (\<forall>d. v \<noteq> PDict d) \<longrightarrow>
        ?r = Inl (Raised AttributeError)"
    using get_project_name_no_object [of h p "(w, tr)"] by simp
  have e: "(\<exists>v. ?r = Inr v) \<longleftrightarrow>
        json_load_file h p w = Inl FileNotFoundError \<or> json_load_file h p w = Inl JSONDecodeError
        \<or> (\<exists>d. json_load_file h p w = Inr (PDict d))"
  proof (cases "json_load_file h p w")
    case (Inl x)
    then show ?thesis using d f by (cases "x = FileNotFoundError \<or> x = JSONDecodeError") auto
  next
    case (Inr v)
    show ?thesis
    proof (cases "\<exists>d. v = PDict d")
      case True
      then show ?thesis using Inr by (auto simp: get_project_name_object)
    next
      case False
      then show ?thesis using Inr g by auto
    qed
  qed
  show ?thesis by (intro conjI a b c d e f g)
qed

theorem get_project_name_contract_witness:
  "fst (get_project_name demo_host demo_artifact (0, [])) = Inr (PStr ''Foo'')
   \<and> fst (get_project_name host_no_artifact demo_artifact (0, [])) = Inr (PStr [])
   \<and> fst (get_project_name host_bad_artifact demo_artifact (0, [])) = Inr (PStr [])
   \<and> fst (get_project_name host_empty_artifact demo_artifact (0, [])) = Inr (PStr [])
   \<and> fst (get_project_name host_undecodable_artifact demo_artifact (0, []))
       = Inl (Raised UnicodeDecodeError)
   \<and> fst (get_project_name host_array_artifact demo_artifact (0, []))
       = Inl (Raised AttributeError)"
proof -
  have l1: "json_load_file demo_host demo_artifact 0 = Inr (PDict [(''project_name'', PStr ''Foo'')])"
    by (simp add: demo_host_def)
  have l2: "json_load_file host_no_artifact demo_artifact 0 = Inl FileNotFoundError"
    by (simp add: host_no_artifact_def demo_host_def)
  have l3: "json_load_file host_bad_artifact demo_artifact 0 = Inl JSONDecodeError"
    by (simp add: host_bad_artifact_def demo_host_def)
  have l4: "json_load_file host_empty_artifact demo_artifact 0 = Inr (PDict [])
                \<and> map_of ([] :: (string \<times> pyval) list) ''project_name'' = None"
    by (simp add: host_empty_artifact_def demo_host_def)
  have l5: "json_load_file host_undecodable_artifact demo_artifact 0 = Inl UnicodeDecodeError
              \<and> UnicodeDecodeError \<noteq> FileNotFoundError \<and> UnicodeDecodeError \<noteq> JSONDecodeError"
    by (simp add: host_undecodable_artifact_def demo_host_def)
  have l6: "json_load_file host_array_artifact demo_artifact 0 = Inr (PList [])
              \<and> (\<forall>d. PList [] \<noteq> PDict d)"
    by (simp add: host_array_artifact_def demo_host_def)
  have w1: "fst (get_project_name demo_host demo_artifact (0, [])) = Inr (PStr ''Foo'')"
    using get_project_name_contract [of demo_host demo_artifact 0 "[]"] l1 by blast
  have w2: "fst (get_project_name host_no_artifact demo_artifact (0, [])) = Inr (PStr [])"
    using get_project_name_contract [of host_no_artifact demo_artifact 0 "[]"] l2 by blast
  have w3: "fst (get_project_name host_bad_artifact demo_artifact (0, [])) = Inr (PStr [])"
    using get_project_name_contract [of host_bad_artifact demo_artifact 0 "[]"] l3 by blast
  have w4: "fst (get_project_name host_empty_artifact demo_artifact (0, [])) = Inr (PStr [])"
    using get_project_name_contract [of host_empty_artifact demo_artifact 0 "[]"] l4 by blast
  have w5: "fst (get_project_name host_undecodable_artifact demo_artifact (0, []))
              = Inl (Raised UnicodeDecodeError)"
    using get_project_name_contract [of host_undecodable_artifact demo_artifact 0 "[]"] l5 by blast
  have w6: "fst (get_project_name host_array_artifact demo_artifact (0, []))
              = Inl (Raised AttributeError)"
    using get_project_name_contract [of host_array_artifact demo_artifact 0 "[]"] l6 by blast
  show ?thesis by (intro conjI w1 w2 w3 w4 w5 w6)
qed

section \<open>Calendar arithmetic\<close>

text \<open>
  The ordinal of the date that \<open>ord2ymd\<close> gives for a day number is that day number,
  so adding a difference to a \<open>datetime\<close> moves its reading by exactly that difference.
\<close>

lemma month_day_roundtrip:
  fixes k :: int
  assumes k: "0 \<le> k" "k < 365 + (if leap then 1 else 0)"
  shows "(let m = (k + 50) div 32;
              preceding = DAYS_BEFORE_MONTH ! nat m + (if m > 2 \<and> leap then 1 else 0)
          in if preceding > k
          then DAYS_BEFORE_MONTH ! nat (m - 1) + (if m - 1 > 2 \<and> leap then 1 else 0)
               + (k - (preceding - (DAYS_IN_MONTH ! nat (m - 1) + (if m - 1 = 2 \<and> leap then 1 else 0))) + 1)
          else DAYS_BEFORE_MONTH ! nat m + (if m > 2 \<and> leap then 1 else 0) + (k - preceding + 1))
         = k + 1"
proof -
  define m where "m = (k + 50) div 32"
  have "1 \<le> m \<and> m \<le> 12" using k unfolding m_def by (auto split: if_splits)
  then have "m = 1 \<or> m = 2 \<or> m = 3 \<or> m = 4 \<or> m = 5 \<or> m = 6 \<or> m = 7 \<or> m = 8
    \<or> m = 9 \<or> m = 10 \<or> m = 11 \<or> m = 12"
    by presburger
  with k show ?thesis
    unfolding Let_def m_def [symmetric]
    by (elim disjE) (simp_all add: DAYS_BEFORE_MONTH_def DAYS_IN_MONTH_def)
qed

lemma year_split:
  fixes n :: int
  defines "a \<equiv> n div 146097"
  defines "r \<equiv> n mod 146097"
  defines "b \<equiv> r div 36524"
  defines "r2 \<equiv> r mod 36524"
  defines "c \<equiv> r2 div 1461"
  defines "r3 \<equiv> r2 mod 1461"
  defines "e \<equiv> r3 div 365"
  defines "r4 \<equiv> r3 mod 365"
  shows "0 \<le> b \<and> b \<le> 4 \<and> 0 \<le> c \<and> c \<le> 24 \<and> 0 \<le> e \<and> e \<le> 4 \<and> 0 \<le> r4 \<and> r4 < 365
         \<and> n = 146097 * a + 36524 * b + 1461 * c + 365 * e + r4
         \<and> (b = 4 \<longrightarrow> c = 0 \<and> e = 0 \<and> r4 = 0)
         \<and> (e = 4 \<longrightarrow> r4 = 0 \<and> c \<le> 23)"
proof -
  have r: "0 \<le> r" "r < 146097" by (simp_all add: r_def)
  have nr: "n = 146097 * a + r" by (simp add: a_def r_def)
  have r2: "0 \<le> r2" "r2 < 36524" by (simp_all add: r2_def)
  have rr2: "r = 36524 * b + r2" by (simp add: b_def r2_def)
  have r3: "0 \<le> r3" "r3 < 1461" by (simp_all add: r3_def)
  have r2r3: "r2 = 1461 * c + r3" by (simp add: c_def r3_def)
  have r4: "0 \<le> r4" "r4 < 365" by (simp_all add: r4_def)
  have r3r4: "r3 = 365 * e + r4" by (simp add: e_def r4_def)
  have b: "0 \<le> b" "b \<le> 4" using r rr2 r2 by arith+
  have c: "0 \<le> c" "c \<le> 24" using r2 r2r3 r3 by arith+
  have e: "0 \<le> e" "e \<le> 4" using r3 r3r4 r4 by arith+
  have b4: "b = 4 \<longrightarrow> c = 0 \<and> e = 0 \<and> r4 = 0"
    using r rr2 r2 r2r3 r3 r3r4 r4 c e by arith
  have e4: "e = 4 \<longrightarrow> r4 = 0 \<and> c \<le> 23"
    using r2 r2r3 r3 r3r4 r4 c by arith
  show ?thesis using nr rr2 r2r3 r3r4 b c e r4 b4 e4 by simp
qed
lemma year_part:
  fixes a b c e :: int
  assumes "0 \<le> b" "b \<le> 3" "0 \<le> c" "c \<le> 24" "0 \<le> e" "e \<le> 3"
  shows "days_before_year (400 * a + 1 + 100 * b + 4 * c + e)
           = 146097 * a + 36524 * b + 1461 * c + 365 * e
         \<and> (is_leap (400 * a + 1 + 100 * b + 4 * c + e) \<longleftrightarrow> e = 3 \<and> (c \<noteq> 24 \<or> b = 3))"
proof -
  define Y where "Y = 400 * a + 100 * b + 4 * c + e"
  have d4: "Y div 4 = 100 * a + 25 * b + c"
    by (rule int_div_pos_eq [where r = e]) (use assms in \<open>simp_all add: Y_def\<close>)
  have d100: "Y div 100 = 4 * a + b"
    by (rule int_div_pos_eq [where r = "4 * c + e"]) (use assms in \<open>simp_all add: Y_def\<close>)
  have d400: "Y div 400 = a"
    by (rule int_div_pos_eq [where r = "100 * b + 4 * c + e"]) (use assms in \<open>simp_all add: Y_def\<close>)
  have dby: "days_before_year (Y + 1) = 146097 * a + 36524 * b + 1461 * c + 365 * e"
    unfolding days_before_year_def Let_def using d4 d100 d400 by (simp add: Y_def)
  have m4: "(Y + 1) mod 4 = (e + 1) mod 4"
  proof -
    have "Y + 1 = 4 * (100 * a + 25 * b + c) + (e + 1)" by (simp add: Y_def)
    then show ?thesis by (metis mod_mult_self4)
  qed
  have m100: "(Y + 1) mod 100 = (4 * c + e + 1) mod 100"
  proof -
    have "Y + 1 = 100 * (4 * a + b) + (4 * c + e + 1)" by (simp add: Y_def)
    then show ?thesis by (metis mod_mult_self4)
  qed
  have m400: "(Y + 1) mod 400 = (100 * b + 4 * c + e + 1) mod 400"
  proof -
    have "Y + 1 = 400 * a + (100 * b + 4 * c + e + 1)" by (simp add: Y_def)
    then show ?thesis by (metis mod_mult_self4)
  qed
  have e4: "(e + 1) mod 4 = 0 \<longleftrightarrow> e = 3" using assms by arith
  have small: "\<And>v k :: int. 0 < v \<Longrightarrow> v \<le> k \<Longrightarrow> (v mod k = 0 \<longleftrightarrow> v = k)"
  proof -
    fix v k :: int
    assume v: "0 < v" "v \<le> k"
    show "v mod k = 0 \<longleftrightarrow> v = k"
    proof (cases "v = k")
      case True
      then show ?thesis by simp
    next
      case False
      with v have "v mod k = v" by (simp add: mod_pos_pos_trivial)
      with v False show ?thesis by simp
    qed
  qed
  have c100: "(4 * c + e + 1) mod 100 = 0 \<longleftrightarrow> e = 3 \<and> c = 24"
  proof -
    have "(4 * c + e + 1) mod 100 = 0 \<longleftrightarrow> 4 * c + e + 1 = 100"
      by (rule small) (use assms in linarith)+
    also have "\<dots> \<longleftrightarrow> e = 3 \<and> c = 24" using assms by linarith
    finally show ?thesis .
  qed
  have b400: "(100 * b + 4 * c + e + 1) mod 400 = 0 \<longleftrightarrow> e = 3 \<and> c = 24 \<and> b = 3"
  proof -
    have "(100 * b + 4 * c + e + 1) mod 400 = 0 \<longleftrightarrow> 100 * b + 4 * c + e + 1 = 400"
      by (rule small) (use assms in linarith)+
    also have "\<dots> \<longleftrightarrow> e = 3 \<and> c = 24 \<and> b = 3" using assms by linarith
    finally show ?thesis .
  qed
  have leap: "is_leap (Y + 1) \<longleftrightarrow> e = 3 \<and> (c \<noteq> 24 \<or> b = 3)"
    unfolding is_leap_def m4 m100 m400 e4 c100 b400 by blast
  have eq: "400 * a + 1 + 100 * b + 4 * c + e = Y + 1" by (simp add: Y_def)
  show ?thesis unfolding eq using dby leap by simp
qed
lemma ymd2ord_dec31:
  assumes "Y div 4 = q4" "Y div 100 = q100" "Y div 400 = q400" "is_leap (Y + 1)"
  shows "ymd2ord (Y + 1) 12 31 = Y * 365 + q4 - q100 + q400 + 366"
  unfolding ymd2ord_def days_before_year_def days_before_month_def Let_def
  using assms by (simp add: DAYS_BEFORE_MONTH_def)

lemma year_end_part:
  fixes a b c :: int
  assumes "0 \<le> b" "b \<le> 3" "0 \<le> c" "c \<le> 23"
  shows "ymd2ord (400 * a + 100 * b + 4 * c + 4) 12 31
           = 146097 * a + 36524 * b + 1461 * c + 1461"
proof -
  define Y where "Y = 400 * a + 100 * b + 4 * c + 3"
  have d4: "Y div 4 = 100 * a + 25 * b + c"
    by (rule int_div_pos_eq [where r = 3]) (use assms in \<open>simp_all add: Y_def\<close>)
  have d100: "Y div 100 = 4 * a + b"
    by (rule int_div_pos_eq [where r = "4 * c + 3"]) (use assms in \<open>simp_all add: Y_def\<close>)
  have d400: "Y div 400 = a"
    by (rule int_div_pos_eq [where r = "100 * b + 4 * c + 3"]) (use assms in \<open>simp_all add: Y_def\<close>)
  have m4: "(Y + 1) mod 4 = 0"
    by (rule int_mod_pos_eq [where q = "100 * a + 25 * b + c + 1"]) (simp_all add: Y_def)
  have m100: "(Y + 1) mod 100 = 4 * c + 4"
    by (rule int_mod_pos_eq [where q = "4 * a + b"]) (use assms in \<open>simp_all add: Y_def\<close>)
  have m100': "(Y + 1) mod 100 \<noteq> 0" using m100 assms by simp
  have leap: "is_leap (Y + 1)" unfolding is_leap_def using m4 m100' by simp
  have eq: "400 * a + 100 * b + 4 * c + 4 = Y + 1" by (simp add: Y_def)
  show ?thesis unfolding eq ymd2ord_dec31 [OF d4 d100 d400 leap] by (simp add: Y_def)
qed

lemma cycle_end_part:
  fixes a :: int
  shows "ymd2ord (400 * a + 400) 12 31 = 146097 * a + 146097"
proof -
  define Y where "Y = 400 * a + 399"
  have d4: "Y div 4 = 100 * a + 99"
    by (rule int_div_pos_eq [where r = 3]) (simp_all add: Y_def)
  have d100: "Y div 100 = 4 * a + 3"
    by (rule int_div_pos_eq [where r = 99]) (simp_all add: Y_def)
  have d400: "Y div 400 = a"
    by (rule int_div_pos_eq [where r = 399]) (simp_all add: Y_def)
  have m4: "(Y + 1) mod 4 = 0"
    by (rule int_mod_pos_eq [where q = "100 * a + 100"]) (simp_all add: Y_def)
  have m400: "(Y + 1) mod 400 = 0"
    by (rule int_mod_pos_eq [where q = "a + 1"]) (simp_all add: Y_def)
  have leap: "is_leap (Y + 1)" unfolding is_leap_def using m4 m400 by simp
  have eq: "400 * a + 400 = Y + 1" by (simp add: Y_def)
  show ?thesis unfolding eq ymd2ord_dec31 [OF d4 d100 d400 leap] by (simp add: Y_def)
qed
lemma ord2ymd_roundtrip: "(case ord2ymd n of (y, m, d) \<Rightarrow> ymd2ord y m d) = n"
proof -
  define a where "a = (n - 1) div 146097"
  define b where "b = (n - 1) mod 146097 div 36524"
  define c where "c = (n - 1) mod 146097 mod 36524 div 1461"
  define e where "e = (n - 1) mod 146097 mod 36524 mod 1461 div 365"
  define k where "k = (n - 1) mod 146097 mod 36524 mod 1461 mod 365"
  define leap where "leap \<longleftrightarrow> e = 3 \<and> (c \<noteq> 24 \<or> b = 3)"
  have ys: "0 \<le> b \<and> b \<le> 4 \<and> 0 \<le> c \<and> c \<le> 24 \<and> 0 \<le> e \<and> e \<le> 4 \<and> 0 \<le> k \<and> k < 365
         \<and> n - 1 = 146097 * a + 36524 * b + 1461 * c + 365 * e + k
         \<and> (b = 4 \<longrightarrow> c = 0 \<and> e = 0 \<and> k = 0)
         \<and> (e = 4 \<longrightarrow> k = 0 \<and> c \<le> 23)"
    unfolding a_def b_def c_def e_def k_def by (rule year_split)
  show ?thesis
  proof (cases "e = 4 \<or> b = 4")
    case True
    then have o: "ord2ymd n = (a * 400 + 1 + b * 100 + c * 4 + e - 1, 12, 31)"
      unfolding ord2ymd_def Let_def a_def b_def c_def e_def k_def by simp
    show ?thesis
    proof (cases "b = 4")
      case True
      with ys have z: "c = 0" "e = 0" "k = 0" by simp_all
      have "a * 400 + 1 + b * 100 + c * 4 + e - 1 = 400 * a + 400" using True z by simp
      with o have "ord2ymd n = (400 * a + 400, 12, 31)" by simp
      then show ?thesis using cycle_end_part [of a] ys True z by simp
    next
      case False
      with \<open>e = 4 \<or> b = 4\<close> have e4: "e = 4" by simp
      with ys have z: "k = 0" "c \<le> 23" by simp_all
      have b3: "b \<le> 3" using ys False by simp
      have "a * 400 + 1 + b * 100 + c * 4 + e - 1 = 400 * a + 100 * b + 4 * c + 4"
        using e4 by simp
      with o have "ord2ymd n = (400 * a + 100 * b + 4 * c + 4, 12, 31)" by simp
      then show ?thesis using year_end_part [of b c a] ys b3 z e4 by simp
    qed
  next
    case False
    with ys have bnd: "0 \<le> b" "b \<le> 3" "0 \<le> c" "c \<le> 24" "0 \<le> e" "e \<le> 3" by simp_all
    define Yr where "Yr = 400 * a + 1 + 100 * b + 4 * c + e"
    have yp: "days_before_year Yr = 146097 * a + 36524 * b + 1461 * c + 365 * e"
      and lp: "is_leap Yr \<longleftrightarrow> leap"
      using year_part [OF bnd, of a] unfolding Yr_def leap_def by simp_all
    have kb: "0 \<le> k" "k < 365 + (if leap then 1 else 0)" using ys by simp_all
    have yeq: "a * 400 + 1 + b * 100 + c * 4 + e = Yr" by (simp add: Yr_def)
    have o: "ord2ymd n =
      (let m = (k + 50) div 32;
           preceding = DAYS_BEFORE_MONTH ! nat m + (if m > 2 \<and> leap then 1 else 0)
       in if preceding > k
          then (Yr, m - 1, k - (preceding - (DAYS_IN_MONTH ! nat (m - 1)
                                  + (if m - 1 = 2 \<and> leap then 1 else 0))) + 1)
          else (Yr, m, k - preceding + 1))"
      using False
      unfolding ord2ymd_def Let_def a_def [symmetric] b_def [symmetric] c_def [symmetric]
        e_def [symmetric] k_def [symmetric] leap_def [symmetric] yeq
      by simp
    have md: "(let m = (k + 50) div 32;
              preceding = DAYS_BEFORE_MONTH ! nat m + (if m > 2 \<and> leap then 1 else 0)
          in if preceding > k
          then DAYS_BEFORE_MONTH ! nat (m - 1) + (if m - 1 > 2 \<and> leap then 1 else 0)
               + (k - (preceding - (DAYS_IN_MONTH ! nat (m - 1) + (if m - 1 = 2 \<and> leap then 1 else 0))) + 1)
          else DAYS_BEFORE_MONTH ! nat m + (if m > 2 \<and> leap then 1 else 0) + (k - preceding + 1))
         = k + 1"
      by (rule month_day_roundtrip [OF kb])
    have "(case ord2ymd n of (y, m, d) \<Rightarrow> ymd2ord y m d) = days_before_year Yr + (k + 1)"
      unfolding o md [symmetric]
      by (simp add: Let_def ymd2ord_def days_before_month_def lp)
    then show ?thesis using yp ys by simp
  qed
qed
lemma clock_split:
  fixes secs :: int
  shows "((secs div 3600) * 60 + secs mod 3600 div 60) * 60 + secs mod 60 = secs"
proof -
  have "secs mod 3600 mod 60 = secs mod 60"
    by (rule mod_mod_cancel) simp
  then have A: "secs mod 3600 div 60 * 60 + secs mod 60 = secs mod 3600"
    by (metis div_mult_mod_eq)
  have B: "secs div 3600 * 3600 + secs mod 3600 = secs"
    by (rule div_mult_mod_eq)
  have "((secs div 3600) * 60 + secs mod 3600 div 60) * 60 + secs mod 60
          = secs div 3600 * 3600 + (secs mod 3600 div 60 * 60 + secs mod 60)"
    by (simp add: algebra_simps)
  also have "\<dots> = secs div 3600 * 3600 + secs mod 3600" by (simp only: A)
  also have "\<dots> = secs" by (rule B)
  finally show ?thesis .
qed

lemma add_delta_in_range:
  assumes "0 < (to_micro dt + delta) div 86400000000"
    and "(to_micro dt + delta) div 86400000000 \<le> MAXORDINAL"
  shows "\<exists>r. add_delta dt delta = Inr r"
  using assms
  by (cases "ord2ymd ((to_micro dt + delta) div 86400000000)")
     (simp add: add_delta_def Let_def)

lemma add_delta_to_micro:
  assumes "add_delta dt delta = Inr r"
  shows "to_micro r = to_micro dt + delta" and "tzinfo r = tzinfo dt"
proof -
  define t where "t = to_micro dt + delta"
  define days where "days = t div 86400000000"
  define rest where "rest = t mod 86400000000"
  define secs where "secs = rest div 1000000"
  obtain y m d where ymd: "ord2ymd days = (y, m, d)" by (cases "ord2ymd days") auto
  have rng: "0 < days \<and> days \<le> MAXORDINAL"
    using assms unfolding add_delta_def Let_def t_def [symmetric] days_def [symmetric]
    by (auto split: if_splits prod.splits)
  have r: "r = \<lparr>year = y, month = m, day = d,
                 hour = secs div 3600, minute = secs mod 3600 div 60, second = secs mod 60,
                 microsecond = rest mod 1000000, tzinfo = tzinfo dt\<rparr>"
    using assms rng ymd
    unfolding add_delta_def Let_def t_def [symmetric] days_def [symmetric] rest_def [symmetric]
      secs_def [symmetric]
    by simp
  show "tzinfo r = tzinfo dt" by (simp add: r)
  have o: "ymd2ord y m d = days" using ord2ymd_roundtrip [of days] ymd by simp
  have "to_micro r = ((days * 24 * 60 * 60)
            + (((secs div 3600) * 60 + secs mod 3600 div 60) * 60 + secs mod 60)) * 1000000
            + rest mod 1000000"
    by (simp add: r to_micro_def o algebra_simps)
  also have "\<dots> = days * 86400000000 + (secs * 1000000 + rest mod 1000000)"
    unfolding clock_split by (simp add: algebra_simps)
  also have "secs * 1000000 + rest mod 1000000 = rest"
    unfolding secs_def by (rule div_mult_mod_eq)
  also have "days * 86400000000 + rest = t"
    unfolding days_def rest_def by (rule div_mult_mod_eq)
  finally show "to_micro r = to_micro dt + delta" by (simp add: t_def)
qed

lemma astimezone_utc_instant:
  assumes "astimezone_utc dt off = Inr r"
  shows "to_micro r = to_micro dt - off" and "tzinfo r = Some 0"
proof -
  obtain u where u: "add_delta dt (- off) = Inr u"
    and r: "add_delta (u\<lparr>tzinfo := Some 0\<rparr>) 0 = Inr r"
    using assms unfolding astimezone_utc_def by (auto split: sum.splits)
  have "to_micro (u\<lparr>tzinfo := Some 0\<rparr>) = to_micro u" by (simp add: to_micro_def)
  then show "to_micro r = to_micro dt - off"
    using add_delta_to_micro(1) [OF u] add_delta_to_micro(1) [OF r] by simp
  show "tzinfo r = Some 0" using add_delta_to_micro(2) [OF r] by simp
qed

lemma astimezone_utc_in_range:
  assumes "0 < (to_micro dt - off) div 86400000000"
    and "(to_micro dt - off) div 86400000000 \<le> MAXORDINAL"
  shows "\<exists>r. astimezone_utc dt off = Inr r"
proof -
  obtain u where u: "add_delta dt (- off) = Inr u"
    using add_delta_in_range [of dt "- off"] assms by auto
  have "to_micro (u\<lparr>tzinfo := Some 0\<rparr>) + 0 = to_micro dt - off"
    using add_delta_to_micro(1) [OF u] by (simp add: to_micro_def)
  then obtain r where "add_delta (u\<lparr>tzinfo := Some 0\<rparr>) 0 = Inr r"
    using add_delta_in_range [of "u\<lparr>tzinfo := Some 0\<rparr>" 0] assms by auto
  with u show ?thesis unfolding astimezone_utc_def by simp
qed

lemma month_day_valid:
  fixes k :: int
  assumes k: "0 \<le> k" "k < 365 + (if leap then 1 else 0)"
    and m0: "m0 = (k + 50) div 32"
    and prec: "prec = DAYS_BEFORE_MONTH ! nat m0 + (if m0 > 2 \<and> leap then 1 else 0)"
    and md: "(m, d) = (if prec > k
                        then (m0 - 1, k - (prec - (DAYS_IN_MONTH ! nat (m0 - 1)
                                             + (if m0 - 1 = 2 \<and> leap then 1 else 0))) + 1)
                        else (m0, k - prec + 1))"
  shows "1 \<le> m \<and> m \<le> 12 \<and> 1 \<le> d \<and> d \<le> (if m = 2 \<and> leap then 29 else DAYS_IN_MONTH ! nat m)"
proof -
  have "1 \<le> m0 \<and> m0 \<le> 12" using k unfolding m0 by (auto split: if_splits)
  then have "m0 = 1 \<or> m0 = 2 \<or> m0 = 3 \<or> m0 = 4 \<or> m0 = 5 \<or> m0 = 6 \<or> m0 = 7 \<or> m0 = 8
    \<or> m0 = 9 \<or> m0 = 10 \<or> m0 = 11 \<or> m0 = 12"
    by presburger
  moreover have "32 * m0 \<le> k + 50" "k + 50 < 32 * m0 + 32"
    unfolding m0 by presburger+
  ultimately show ?thesis
    using k prec md
    by (elim disjE) (auto simp: DAYS_BEFORE_MONTH_def DAYS_IN_MONTH_def split: if_splits)
qed

lemma year_bound:
  fixes a b c e k n :: int
  assumes "0 \<le> a" "n \<le> 3652058" "0 \<le> b" "b \<le> 3" "0 \<le> c" "c \<le> 24" "0 \<le> e" "e \<le> 4" "0 \<le> k"
    and "n = 146097 * a + 36524 * b + 1461 * c + 365 * e + k"
  shows "1 \<le> 400 * a + 1 + 100 * b + 4 * c + e \<and> 400 * a + 1 + 100 * b + 4 * c + e \<le> 9999"
    and "e = 4 \<Longrightarrow> c \<le> 23 \<Longrightarrow> 400 * a + 100 * b + 4 * c + e \<le> 9999"
  using assms by linarith+

lemma cycle_bound:
  fixes a n :: int
  assumes "0 \<le> a" "n \<le> 3652058" "n = 146097 * a + 36524 * 4"
  shows "1 \<le> 400 * a + 400 \<and> 400 * a + 400 \<le> 9999"
  using assms by linarith

lemma ord2ymd_valid:
  assumes n: "0 < n" "n \<le> MAXORDINAL" and o: "ord2ymd n = (y, m, d)"
  shows "1 \<le> y \<and> y \<le> 9999 \<and> 1 \<le> m \<and> m \<le> 12 \<and> 1 \<le> d \<and> d \<le> days_in_month y m"
proof -
  define a where "a = (n - 1) div 146097"
  define b where "b = (n - 1) mod 146097 div 36524"
  define c where "c = (n - 1) mod 146097 mod 36524 div 1461"
  define e where "e = (n - 1) mod 146097 mod 36524 mod 1461 div 365"
  define k where "k = (n - 1) mod 146097 mod 36524 mod 1461 mod 365"
  define leap where "leap \<longleftrightarrow> e = 3 \<and> (c \<noteq> 24 \<or> b = 3)"
  have ys: "0 \<le> b \<and> b \<le> 4 \<and> 0 \<le> c \<and> c \<le> 24 \<and> 0 \<le> e \<and> e \<le> 4 \<and> 0 \<le> k \<and> k < 365
         \<and> n - 1 = 146097 * a + 36524 * b + 1461 * c + 365 * e + k
         \<and> (b = 4 \<longrightarrow> c = 0 \<and> e = 0 \<and> k = 0)
         \<and> (e = 4 \<longrightarrow> k = 0 \<and> c \<le> 23)"
    unfolding a_def b_def c_def e_def k_def by (rule year_split)
  have bs: "0 \<le> b" "b \<le> 4" "0 \<le> c" "c \<le> 24" "0 \<le> e" "e \<le> 4" "0 \<le> k" "k < 365"
    and sum: "n - 1 = 146097 * a + 36524 * b + 1461 * c + 365 * e + k"
    using ys by simp_all
  have a0: "0 \<le> a" using n unfolding a_def by simp
  have top: "n - 1 \<le> 3652058" using n by (simp add: MAXORDINAL_def)
  show ?thesis
  proof (cases "e = 4 \<or> b = 4")
    case True
    then have o': "ord2ymd n = (a * 400 + 1 + b * 100 + c * 4 + e - 1, 12, 31)"
      unfolding ord2ymd_def Let_def a_def b_def c_def e_def k_def by simp
    have yv: "y = 400 * a + 100 * b + 4 * c + e" and mv: "m = 12" and dv: "d = 31"
      using o o' by simp_all
    have "1 \<le> y \<and> y \<le> 9999"
    proof (cases "b = 4")
      case True
      with ys have z: "c = 0" "e = 0" "k = 0" by simp_all
      have "n - 1 = 146097 * a + 36524 * 4" using sum True z by simp
      from cycle_bound [OF a0 top this] show ?thesis unfolding yv using True z by simp
    next
      case False
      with \<open>e = 4 \<or> b = 4\<close> have e4: "e = 4" by simp
      with ys have c23: "c \<le> 23" by simp
      have b3: "b \<le> 3" using bs False by simp
      have "400 * a + 100 * b + 4 * c + e \<le> 9999"
        by (rule year_bound(2) [OF a0 top bs(1) b3 bs(3,4,5,6,7) sum e4 c23])
      moreover have "1 \<le> 400 * a + 100 * b + 4 * c + e" using a0 bs e4 by linarith
      ultimately show ?thesis unfolding yv by simp
    qed
    then show ?thesis unfolding mv dv by (simp add: days_in_month_def DAYS_IN_MONTH_def)
  next
    case False
    with bs have bnd: "0 \<le> b" "b \<le> 3" "0 \<le> c" "c \<le> 24" "0 \<le> e" "e \<le> 3" by simp_all
    define Yr where "Yr = 400 * a + 1 + 100 * b + 4 * c + e"
    have lp: "is_leap Yr \<longleftrightarrow> leap"
      using year_part [OF bnd, of a] unfolding Yr_def leap_def by simp
    have kb: "0 \<le> k" "k < 365 + (if leap then 1 else 0)" using bs by simp_all
    have yeq: "a * 400 + 1 + b * 100 + c * 4 + e = Yr" by (simp add: Yr_def)
    define m0 where "m0 = (k + 50) div 32"
    define prec where "prec = DAYS_BEFORE_MONTH ! nat m0 + (if m0 > 2 \<and> leap then 1 else 0)"
    have o': "ord2ymd n =
        (if prec > k
         then (Yr, m0 - 1, k - (prec - (DAYS_IN_MONTH ! nat (m0 - 1)
                                  + (if m0 - 1 = 2 \<and> leap then 1 else 0))) + 1)
         else (Yr, m0, k - prec + 1))"
      using False
      unfolding ord2ymd_def Let_def a_def [symmetric] b_def [symmetric] c_def [symmetric]
        e_def [symmetric] k_def [symmetric] leap_def [symmetric] yeq prec_def m0_def
      by simp
    have eq: "(y, m, d) =
        (if prec > k
         then (Yr, m0 - 1, k - (prec - (DAYS_IN_MONTH ! nat (m0 - 1)
                                  + (if m0 - 1 = 2 \<and> leap then 1 else 0))) + 1)
         else (Yr, m0, k - prec + 1))"
      unfolding o [symmetric] by (rule o')
    have yv: "y = Yr" using eq by (cases "prec > k") simp_all
    have md: "(m, d) = (if prec > k
                        then (m0 - 1, k - (prec - (DAYS_IN_MONTH ! nat (m0 - 1)
                                             + (if m0 - 1 = 2 \<and> leap then 1 else 0))) + 1)
                        else (m0, k - prec + 1))"
      using eq by (cases "prec > k") simp_all
    have e4: "e \<le> 4" using bnd by simp
    have yr: "1 \<le> Yr \<and> Yr \<le> 9999"
      unfolding Yr_def by (rule year_bound(1) [OF a0 top bnd(1,2,3,4,5) e4 bs(7) sum])
    have "1 \<le> m \<and> m \<le> 12 \<and> 1 \<le> d \<and> d \<le> (if m = 2 \<and> leap then 29 else DAYS_IN_MONTH ! nat m)"
      by (rule month_day_valid [OF kb m0_def prec_def md])
    then show ?thesis using yr unfolding yv days_in_month_def lp by simp
  qed
qed
lemma clock_bounds:
  fixes rest :: int
  assumes "0 \<le> rest" "rest < 86400000000"
  shows "0 \<le> rest div 1000000 div 3600 \<and> rest div 1000000 div 3600 \<le> 23
         \<and> 0 \<le> rest div 1000000 mod 3600 div 60 \<and> rest div 1000000 mod 3600 div 60 \<le> 59
         \<and> 0 \<le> rest div 1000000 mod 60 \<and> rest div 1000000 mod 60 \<le> 59
         \<and> 0 \<le> rest mod 1000000 \<and> rest mod 1000000 \<le> 999999"
proof -
  define secs where "secs = rest div 1000000"
  define us where "us = rest mod 1000000"
  define h where "h = secs div 3600"
  define ms where "ms = secs mod 3600"
  define mi where "mi = ms div 60"
  define s where "s = ms mod 60"
  have us: "0 \<le> us" "us < 1000000" by (simp_all add: us_def)
  have r1: "rest = 1000000 * secs + us" by (simp add: secs_def us_def)
  have secs: "0 \<le> secs" "secs < 86400" using assms r1 us by linarith+
  have ms: "0 \<le> ms" "ms < 3600" by (simp_all add: ms_def)
  have r2: "secs = 3600 * h + ms" by (simp add: h_def ms_def)
  have h: "0 \<le> h" "h \<le> 23" using secs r2 ms by linarith+
  have s: "0 \<le> s" "s < 60" by (simp_all add: s_def)
  have r3: "ms = 60 * mi + s" by (simp add: mi_def s_def)
  have mi: "0 \<le> mi" "mi \<le> 59" using ms r3 s by linarith+
  have sm: "secs mod 60 = s"
    unfolding s_def ms_def by (rule mod_mod_cancel [symmetric]) simp
  have s': "0 \<le> secs mod 60" "secs mod 60 \<le> 59" unfolding sm using s by linarith+
  have us': "us \<le> 999999" using us by linarith
  show ?thesis
    using h mi s' us(1) us'
    unfolding h_def mi_def ms_def secs_def us_def by blast
qed

lemma add_delta_valid:
  assumes "add_delta dt delta = Inr r"
  shows "valid_datetime r"
proof -
  define t where "t = to_micro dt + delta"
  define days where "days = t div 86400000000"
  define rest where "rest = t mod 86400000000"
  obtain y m d where ymd: "ord2ymd days = (y, m, d)" by (cases "ord2ymd days") auto
  have rng: "0 < days \<and> days \<le> MAXORDINAL"
    using assms unfolding add_delta_def Let_def t_def [symmetric] days_def [symmetric]
    by (auto split: if_splits prod.splits)
  have r: "r = \<lparr>year = y, month = m, day = d,
                 hour = rest div 1000000 div 3600, minute = rest div 1000000 mod 3600 div 60,
                 second = rest div 1000000 mod 60,
                 microsecond = rest mod 1000000, tzinfo = tzinfo dt\<rparr>"
    using assms rng ymd
    unfolding add_delta_def Let_def t_def [symmetric] days_def [symmetric] rest_def [symmetric]
    by simp
  have date: "1 \<le> y \<and> y \<le> 9999 \<and> 1 \<le> m \<and> m \<le> 12 \<and> 1 \<le> d \<and> d \<le> days_in_month y m"
    using ord2ymd_valid [OF _ _ ymd] rng by simp
  have rest: "0 \<le> rest" "rest < 86400000000" unfolding rest_def by simp_all
  show ?thesis unfolding valid_datetime_def r using date clock_bounds [OF rest] by simp
qed

lemma astimezone_utc_valid:
  assumes "astimezone_utc dt off = Inr r"
  shows "valid_datetime r"
proof -
  obtain u where "add_delta (u\<lparr>tzinfo := Some 0\<rparr>) 0 = Inr r"
    using assms unfolding astimezone_utc_def by (auto split: sum.splits)
  then show ?thesis by (rule add_delta_valid)
qed

lemma astimezone_utc_overflow:
  assumes "\<not> (0 < (to_micro dt - off) div 86400000000
              \<and> (to_micro dt - off) div 86400000000 \<le> MAXORDINAL)"
  shows "astimezone_utc dt off = Inl OverflowError"
proof -
  have "add_delta dt (- off) = Inl OverflowError"
    using assms
    by (cases "ord2ymd ((to_micro dt - off) div 86400000000)")
       (auto simp: add_delta_def Let_def)
  then show ?thesis by (simp add: astimezone_utc_def)
qed

lemma radix_unique:
  fixes a b r s k :: int
  assumes "a * k + r = b * k + s" "0 \<le> r" "r < k" "0 \<le> s" "s < k"
  shows "a = b \<and> r = s"
proof -
  have "(a * k + r) div k = a"
    by (rule int_div_pos_eq [where r = r]) (use assms in \<open>simp_all add: mult.commute\<close>)
  moreover have "(b * k + s) div k = b"
    by (rule int_div_pos_eq [where r = s]) (use assms in \<open>simp_all add: mult.commute\<close>)
  ultimately have "a = b" using assms(1) by simp
  then show ?thesis using assms(1) by simp
qed

lemma div_step:
  fixes y k :: int
  assumes "0 < k"
  shows "y div k = (y - 1) div k + (if y mod k = 0 then 1 else 0)"
proof -
  define q where "q = y div k"
  define r where "r = y mod k"
  have y: "y = k * q + r" by (simp add: q_def r_def)
  have r: "0 \<le> r" "r < k" using assms by (simp_all add: r_def)
  show ?thesis
  proof (cases "r = 0")
    case True
    have "(y - 1) div k = q - 1"
      by (rule int_div_pos_eq [where r = "k - 1"]) (use y True assms in \<open>simp_all add: algebra_simps\<close>)
    then show ?thesis using True unfolding q_def r_def by simp
  next
    case False
    have "(y - 1) div k = q"
      by (rule int_div_pos_eq [where r = "r - 1"]) (use y False r in \<open>simp_all add: algebra_simps\<close>)
    then show ?thesis using False unfolding q_def r_def by simp
  qed
qed

lemma days_before_year_step:
  "days_before_year (y + 1) = days_before_year y + 365 + (if is_leap y then 1 else 0)"
proof -
  define i4 :: int where "i4 = (if y mod 4 = 0 then 1 else 0)"
  define i100 :: int where "i100 = (if y mod 100 = 0 then 1 else 0)"
  define i400 :: int where "i400 = (if y mod 400 = 0 then 1 else 0)"
  have d4: "y div 4 = (y - 1) div 4 + i4"
    unfolding i4_def by (rule div_step) simp
  have d100: "y div 100 = (y - 1) div 100 + i100"
    unfolding i100_def by (rule div_step) simp
  have d400: "y div 400 = (y - 1) div 400 + i400"
    unfolding i400_def by (rule div_step) simp
  have i1: "y mod 400 = 0 \<Longrightarrow> y mod 100 = 0"
  proof -
    assume "y mod 400 = 0"
    then have "400 dvd y" by (simp add: mod_eq_0_iff_dvd)
    moreover have "(100 :: int) dvd 400" by simp
    ultimately have "100 dvd y" by (rule dvd_trans [rotated])
    then show "y mod 100 = 0" by (simp add: mod_eq_0_iff_dvd)
  qed
  have i2: "y mod 100 = 0 \<Longrightarrow> y mod 4 = 0"
  proof -
    assume "y mod 100 = 0"
    then have "100 dvd y" by (simp add: mod_eq_0_iff_dvd)
    moreover have "(4 :: int) dvd 100" by simp
    ultimately have "4 dvd y" by (rule dvd_trans [rotated])
    then show "y mod 4 = 0" by (simp add: mod_eq_0_iff_dvd)
  qed
  have leap: "i4 - i100 + i400 = (if is_leap y then 1 else 0)"
  proof (cases "y mod 4 = 0")
    case False
    then have "y mod 100 \<noteq> 0" "y mod 400 \<noteq> 0" using i1 i2 by auto
    with False show ?thesis by (simp add: i4_def i100_def i400_def is_leap_def)
  next
    case True
    show ?thesis
    proof (cases "y mod 100 = 0")
      case False
      then have "y mod 400 \<noteq> 0" using i1 by auto
      with True False show ?thesis by (simp add: i4_def i100_def i400_def is_leap_def)
    next
      case c: True
      with True show ?thesis by (simp add: i4_def i100_def i400_def is_leap_def)
    qed
  qed
  have "days_before_year (y + 1) = y * 365 + y div 4 - y div 100 + y div 400"
    by (simp add: days_before_year_def)
  also have "\<dots> = (y - 1) * 365 + (y - 1) div 4 - (y - 1) div 100 + (y - 1) div 400
                  + 365 + (i4 - i100 + i400)"
    unfolding d4 d100 d400 by (simp add: algebra_simps)
  also have "(y - 1) * 365 + (y - 1) div 4 - (y - 1) div 100 + (y - 1) div 400
               = days_before_year y"
    by (simp add: days_before_year_def Let_def)
  finally show ?thesis unfolding leap .
qed
lemma days_before_year_mono:
  assumes "y < y'"
  shows "days_before_year (y + 1) \<le> days_before_year y'"
proof -
  have "y + 1 \<le> y'" using assms by simp
  then show ?thesis
  proof (induction y' rule: int_ge_induct)
    case base
    show ?case by simp
  next
    case (step i)
    have "days_before_year i \<le> days_before_year (i + 1)"
      unfolding days_before_year_step [of i] by simp
    with step.IH show ?case by simp
  qed
qed

lemma day_of_year_bounds:
  assumes "1 \<le> m" "m \<le> 12" "1 \<le> d" "d \<le> days_in_month y m"
  shows "1 \<le> days_before_month y m + d
         \<and> days_before_month y m + d \<le> 365 + (if is_leap y then 1 else 0)"
proof -
  have "m = 1 \<or> m = 2 \<or> m = 3 \<or> m = 4 \<or> m = 5 \<or> m = 6 \<or> m = 7 \<or> m = 8
    \<or> m = 9 \<or> m = 10 \<or> m = 11 \<or> m = 12"
    using assms(1,2) by presburger
  then show ?thesis
    using assms(3,4)
    by (elim disjE)
       (simp_all add: days_before_month_def days_in_month_def DAYS_BEFORE_MONTH_def
          DAYS_IN_MONTH_def split: if_splits)
qed

lemma month_day_unique:
  assumes v: "1 \<le> m" "m \<le> 12" "1 \<le> d" "d \<le> days_in_month y m"
    and v': "1 \<le> m'" "m' \<le> 12" "1 \<le> d'" "d' \<le> days_in_month y m'"
    and eq: "days_before_month y m + d = days_before_month y m' + d'"
  shows "m = m' \<and> d = d'"
proof -
  have m: "m = 1 \<or> m = 2 \<or> m = 3 \<or> m = 4 \<or> m = 5 \<or> m = 6 \<or> m = 7 \<or> m = 8
    \<or> m = 9 \<or> m = 10 \<or> m = 11 \<or> m = 12"
    using v(1,2) by presburger
  have m': "m' = 1 \<or> m' = 2 \<or> m' = 3 \<or> m' = 4 \<or> m' = 5 \<or> m' = 6 \<or> m' = 7 \<or> m' = 8
    \<or> m' = 9 \<or> m' = 10 \<or> m' = 11 \<or> m' = 12"
    using v'(1,2) by presburger
  from m m' show ?thesis
    using v(3,4) v'(3,4) eq
    by (elim disjE)
       (simp_all add: days_before_month_def days_in_month_def DAYS_BEFORE_MONTH_def
          DAYS_IN_MONTH_def split: if_splits)
qed

lemma ymd2ord_inj:
  assumes v: "1 \<le> m" "m \<le> 12" "1 \<le> d" "d \<le> days_in_month y m"
    and v': "1 \<le> m'" "m' \<le> 12" "1 \<le> d'" "d' \<le> days_in_month y' m'"
    and eq: "ymd2ord y m d = ymd2ord y' m' d'"
  shows "y = y' \<and> m = m' \<and> d = d'"
proof -
  note b = day_of_year_bounds [OF v] and b' = day_of_year_bounds [OF v']
  have lo: "days_before_year y < ymd2ord y m d" "days_before_year y' < ymd2ord y' m' d'"
    using b b' unfolding ymd2ord_def by linarith+
  have hi: "ymd2ord y m d \<le> days_before_year (y + 1)"
    "ymd2ord y' m' d' \<le> days_before_year (y' + 1)"
    using b b' unfolding ymd2ord_def days_before_year_step by linarith+
  have "\<not> y < y'"
  proof
    assume "y < y'"
    from days_before_year_mono [OF this] show False using lo hi eq by linarith
  qed
  moreover have "\<not> y' < y"
  proof
    assume "y' < y"
    from days_before_year_mono [OF this] show False using lo hi eq by linarith
  qed
  ultimately have y: "y = y'" by simp
  have "days_before_month y m + d = days_before_month y m' + d'"
    using eq unfolding ymd2ord_def y by simp
  from month_day_unique [OF v v' [folded y] this] y show ?thesis by simp
qed

lemma to_micro_inj:
  assumes v: "valid_datetime d1" and v': "valid_datetime d2"
    and eq: "to_micro d1 = to_micro d2" and tz: "tzinfo d1 = tzinfo d2"
  shows "d1 = d2"
proof -
  let ?o1 = "ymd2ord (year d1) (month d1) (day d1)"
  let ?o2 = "ymd2ord (year d2) (month d2) (day d2)"
  have b1: "0 \<le> microsecond d1" "microsecond d1 < 1000000" "0 \<le> second d1" "second d1 < 60"
    "0 \<le> minute d1" "minute d1 < 60" "0 \<le> hour d1" "hour d1 < 24"
    using v unfolding valid_datetime_def by simp_all
  have b2: "0 \<le> microsecond d2" "microsecond d2 < 1000000" "0 \<le> second d2" "second d2 < 60"
    "0 \<le> minute d2" "minute d2 < 60" "0 \<le> hour d2" "hour d2 < 24"
    using v' unfolding valid_datetime_def by simp_all
  have e1: "(((?o1 * 24 + hour d1) * 60 + minute d1) * 60 + second d1) * 1000000 + microsecond d1
          = (((?o2 * 24 + hour d2) * 60 + minute d2) * 60 + second d2) * 1000000 + microsecond d2"
    using eq unfolding to_micro_def .
  from radix_unique [OF e1 b1(1,2) b2(1,2)]
  have e2: "((?o1 * 24 + hour d1) * 60 + minute d1) * 60 + second d1
          = ((?o2 * 24 + hour d2) * 60 + minute d2) * 60 + second d2"
    and us: "microsecond d1 = microsecond d2" by simp_all
  from radix_unique [OF e2 b1(3,4) b2(3,4)]
  have e3: "(?o1 * 24 + hour d1) * 60 + minute d1 = (?o2 * 24 + hour d2) * 60 + minute d2"
    and s: "second d1 = second d2" by simp_all
  from radix_unique [OF e3 b1(5,6) b2(5,6)]
  have e4: "?o1 * 24 + hour d1 = ?o2 * 24 + hour d2"
    and mi: "minute d1 = minute d2" by simp_all
  from radix_unique [OF e4 b1(7,8) b2(7,8)]
  have e5: "?o1 = ?o2" and h: "hour d1 = hour d2" by simp_all
  have dt1: "1 \<le> month d1" "month d1 \<le> 12" "1 \<le> day d1"
    "day d1 \<le> days_in_month (year d1) (month d1)"
    using v unfolding valid_datetime_def by simp_all
  have dt2: "1 \<le> month d2" "month d2 \<le> 12" "1 \<le> day d2"
    "day d2 \<le> days_in_month (year d2) (month d2)"
    using v' unfolding valid_datetime_def by simp_all
  from ymd2ord_inj [OF dt1 dt2 e5]
  have "year d1 = year d2" "month d1 = month d2" "day d1 = day d2" by simp_all
  with h mi s us tz show ?thesis by (simp add: datetime.equality)
qed

section \<open>The history lookup\<close>




lemma child_prefix: "prefix xs (parts p) \<Longrightarrow> prefix xs (parts (child p n))"
  by (simp add: child_def prefix_def) auto






end
